theory Spec2Isabelle
  imports Complex_Main "HOL-Library.Char_ord" "HOL-Library.List_Lexorder" "HOL-Library.Multiset"
begin

section \<open>Python values\<close>

text \<open>
  The model \<open>NovelCoronaAPIv2\<close> of \<^verbatim>\<open>app/models/covid_model_api_v2.py\<close> reshapes
  pandas tables into JSON-like Python values.  A Python float is the rational number it
  denotes, a NaN or an infinity (the sign of a zero is not kept); a \<^verbatim>\<open>dict\<close> is an
  association list in insertion order with pairwise distinct keys.  A character is a
  Unicode code point below 256 and strings are compared code point by code point, as
  Python compares them; strings with other code points are not represented.
\<close>

datatype pyfloat = Finite rat | NaN | Inf bool

datatype pyval =
    PNone
  | PInt int
  | PFloat pyfloat
  | PStr string
  | PList "pyval list"
  | PDict "(string \<times> pyval) list"

datatype error =
    KeyError string
  | IndexError
  | ValueError string
  | TypeError
  | AttributeError
  | OverflowError

type_synonym 'a result = "error + 'a"

definition bind :: "'a result \<Rightarrow> ('a \<Rightarrow> 'b result) \<Rightarrow> 'b result" where
  "bind m f = (case m of Inl e \<Rightarrow> Inl e | Inr v \<Rightarrow> f v)"

fun mapM :: "('a \<Rightarrow> 'b result) \<Rightarrow> 'a list \<Rightarrow> 'b list result" where
  "mapM f [] = Inr []"
| "mapM f (x # xs) = bind (f x) (\<lambda>y. bind (mapM f xs) (\<lambda>ys. Inr (y # ys)))"

type_synonym pydict = "(string \<times> pyval) list"

text \<open>\<^verbatim>\<open>d[k]\<close>: a missing key raises \<^verbatim>\<open>KeyError\<close>.\<close>

definition dict_get :: "(string \<times> 'v) list \<Rightarrow> string \<Rightarrow> 'v result" where
  "dict_get d k = (case map_of d k of None \<Rightarrow> Inl (KeyError k) | Some v \<Rightarrow> Inr v)"

text \<open>\<^verbatim>\<open>d[k] = v\<close>: an existing key keeps its position, a new key goes last.\<close>

fun dict_set :: "(string \<times> 'v) list \<Rightarrow> string \<Rightarrow> 'v \<Rightarrow> (string \<times> 'v) list" where
  "dict_set [] k v = [(k, v)]"
| "dict_set ((k', v') # d) k v = (if k' = k then (k, v) # d else (k', v') # dict_set d k v)"

text \<open>A dict built from a sequence of items, each stored in turn.\<close>

definition dict_of_items :: "(string \<times> 'v) list \<Rightarrow> (string \<times> 'v) list" where
  "dict_of_items kvs = foldl (\<lambda>d (k, v). dict_set d k v) [] kvs"

subsection \<open>Rounding to a double\<close>

text \<open>
  The double nearest to a rational number, ties to the even significand: 53 bits of
  significand, the least exponent of a normal number \<open>-1022\<close>, an infinity from
  \<open>2 ^ 1024\<close> on.  \<open>bit_length\<close> is \<^verbatim>\<open>int.bit_length()\<close>.
\<close>

function bit_length :: "int \<Rightarrow> int" where
  "bit_length n = (if n \<le> 0 then 0 else 1 + bit_length (n div 2))"
  by pat_completeness auto
termination
  by (relation "measure nat") auto

declare bit_length.simps [simp del]

definition pow2 :: "int \<Rightarrow> rat" where
  "pow2 e = (if 0 \<le> e then 2 ^ nat e else 1 / 2 ^ nat (- e))"

text \<open>The \<open>e\<close> with \<open>2 ^ e \<le> a < 2 ^ (e + 1)\<close>, for a positive \<open>a\<close>.\<close>

definition floor_log2 :: "rat \<Rightarrow> int" where
  "floor_log2 a =
     (let (n, d) = quotient_of a;
          e = bit_length n - bit_length d
      in if a < pow2 e then e - 1 else e)"

definition round_half_even :: "rat \<Rightarrow> int" where
  "round_half_even x =
     (let f = \<lfloor>x\<rfloor>; r = x - of_int f
      in if r < 1 / 2 then f else if 1 / 2 < r then f + 1 else if even f then f else f + 1)"

definition round_double :: "rat \<Rightarrow> pyfloat" where
  "round_double q =
     (if q = 0 then Finite 0
      else
        let a = \<bar>q\<bar>;
            ulp = pow2 (max (floor_log2 a) (- 1022) - 52);
            r = of_int (round_half_even (a / ulp)) * ulp
        in if pow2 1024 \<le> r then Inf (0 < q) else Finite (if 0 < q then r else - r))"

section \<open>Input tables\<close>

text \<open>
  One row of the daily report, with the columns the model reads.  The four counts are
  cells of 64-bit integer columns, so each lies from \<open>- 2 ^ 63\<close> to \<open>2 ^ 63 - 1\<close>, and a
  sum of such a column is taken in 64 bits: it wraps around.
\<close>

record daily_report =
  Country_Region :: string
  Last_Update :: string
  Confirmed :: int
  Deaths :: int
  Recovered :: int
  Active :: int

definition wrap64 :: "int \<Rightarrow> int" where
  "wrap64 i = (i + 2 ^ 63) mod 2 ^ 64 - 2 ^ 63"

text \<open>\<^verbatim>\<open>Series.sum()\<close> on a 64-bit integer column.\<close>

definition column_sum :: "int list \<Rightarrow> int" where
  "column_sum xs = wrap64 (sum_list xs)"

text \<open>
  A wide time-series table: its column labels and its rows of cells, under pandas'
  default row index \<open>0, 1, \<dots>\<close>.
\<close>

record dataframe =
  columns :: "string list"
  rows :: "pyval list list"

record datetime =
  year :: nat
  month :: nat
  day :: nat
  hour :: nat
  minute :: nat
  second :: nat

text \<open>
  What the source leaves to the Python runtime and its libraries:
  \<^item> \<open>argsort\<close>: numpy's \<^verbatim>\<open>argsort(kind='quicksort')\<close>, the default kind of
    \<^verbatim>\<open>sort_values\<close>, which pandas documents as not stable;
  \<^item> \<open>str_lower\<close>, \<open>str_upper\<close>: \<^verbatim>\<open>str.lower()\<close> and \<^verbatim>\<open>str.upper()\<close>, which follow
    the case mappings of Unicode;
  \<^item> \<open>int_of_str\<close>, \<open>float_of_str\<close>: \<^verbatim>\<open>int(s)\<close> and \<^verbatim>\<open>float(s)\<close> on a string,
    \<open>None\<close> where they raise \<^verbatim>\<open>ValueError\<close>;
  \<^item> \<open>float_to_int32\<close>: the C conversion of a double outside the 32-bit range;
  \<^item> \<open>mktime\<close>: \<^verbatim>\<open>datetime.timestamp()\<close> of a naive datetime, which depends on the
    local time zone of the process.
\<close>

record runtime =
  argsort :: "int list \<Rightarrow> nat list"
  str_lower :: "string \<Rightarrow> string"
  str_upper :: "string \<Rightarrow> string"
  int_of_str :: "string \<Rightarrow> int option"
  float_of_str :: "string \<Rightarrow> pyfloat option"
  float_to_int32 :: "rat \<Rightarrow> int"
  mktime :: "datetime \<Rightarrow> int result"

section \<open>The response envelope and the store\<close>

text \<open>
  The class docstring's SCHEMA.  \<open>ts\<close> is a float in Python; the model keeps the whole
  seconds it denotes.
\<close>

record envelope =
  data :: pyval
  dt :: string
  ts :: int

text \<open>
  Every query returns \<^verbatim>\<open>self.scheme\<close> itself, not a copy, so envelopes live in a store
  and are passed around by reference.
\<close>

type_synonym ref = nat

record store =
  next_ref :: ref
  env_at :: "ref \<Rightarrow> envelope"

definition alloc :: "envelope \<Rightarrow> store \<Rightarrow> ref \<times> store" where
  "alloc e h = (next_ref h, \<lparr>next_ref = Suc (next_ref h), env_at = (env_at h)(next_ref h := e)\<rparr>)"

text \<open>\<^verbatim>\<open>packed_data['data'] = d\<close> on the envelope at \<open>r\<close>.\<close>

definition set_data :: "ref \<Rightarrow> pyval \<Rightarrow> store \<Rightarrow> store" where
  "set_data r d h = h\<lparr>env_at := (env_at h)(r := (env_at h r)\<lparr>data := d\<rparr>)\<rparr>"

record grouped =
  g_location :: string
  g_confirmed :: int
  g_deaths :: int
  g_recovered :: int
  g_active :: int

record service =
  df :: "daily_report list"
  df_time_series :: "(string \<times> dataframe) list"
  df_US_time_series :: "(string \<times> dataframe) list"
  lookup_table :: "string \<rightharpoonup> string"
  df_grp_by_country :: "grouped list"
  datetime :: string
  timestamp :: int
  scheme :: ref

section \<open>Construction\<close>

text \<open>
  \<^verbatim>\<open>df.groupby('Country_Region')[concerned_columns].sum()\<close>: one row per country, the
  countries in ascending order (\<^verbatim>\<open>groupby\<close> sorts its keys by default), each sum in
  64 bits.
\<close>

definition groupby_sum :: "daily_report list \<Rightarrow> grouped list" where
  "groupby_sum d =
     map (\<lambda>c. let g = filter (\<lambda>r. Country_Region r = c) d in
            \<lparr>g_location = c,
             g_confirmed = column_sum (map Confirmed g),
             g_deaths = column_sum (map Deaths g),
             g_recovered = column_sum (map Recovered g),
             g_active = column_sum (map Active g)\<rparr>)
         (sort (remdups (map Country_Region d)))"

text \<open>\<^verbatim>\<open>max(xs)\<close> on strings: the first greatest element; an empty list raises.\<close>

definition py_max :: "string list \<Rightarrow> string result" where
  "py_max xs = (case xs of [] \<Rightarrow> Inl (ValueError ''max() arg is an empty sequence'')
                | x # r \<Rightarrow> Inr (foldl (\<lambda>m y. if m < y then y else m) x r))"

subsection \<open>\<^verbatim>\<open>datetime.strptime(s, '%Y-%m-%d %H:%M:%S')\<close>\<close>

text \<open>
  \<^verbatim>\<open>strptime\<close> compiles the format to the regular expression
  \<^verbatim>\<open>(\d\d\d\d)-(1[0-2]|0[1-9]|[1-9])-(3[0-1]|[1-2]\d|0[1-9]|[1-9]| [1-9])\s+\<close>
  \<^verbatim>\<open>(2[0-3]|[0-1]\d|\d):([0-5]\d|\d):(6[0-1]|[0-5]\d|\d)\<close>,
  matches it at the start of the string and then demands that nothing is left over.
  A matcher returns its matches in the order in which backtracking tries them.
\<close>

type_synonym rx = "string \<Rightarrow> (string \<times> string) list"

definition rx_set :: "string \<Rightarrow> rx" where
  "rx_set cs s = (case s of [] \<Rightarrow> [] | c # r \<Rightarrow> if c \<in> set cs then [([c], r)] else [])"

definition rx_then :: "rx \<Rightarrow> rx \<Rightarrow> rx" where
  "rx_then p q s = concat (map (\<lambda>(a, r). map (\<lambda>(b, r'). (a @ b, r')) (q r)) (p s))"

definition rx_or :: "rx \<Rightarrow> rx \<Rightarrow> rx" where
  "rx_or p q s = p s @ q s"

definition digits :: string where
  "digits = ''0123456789''"

definition rx_d :: rx where
  "rx_d = rx_set digits"

text \<open>The code points below 256 that Python takes for whitespace.\<close>

definition whitespace :: string where
  "whitespace = [CHR '' '', CHR 0x09, CHR 0x0A, CHR 0x0B, CHR 0x0C, CHR 0x0D,
                 CHR 0x1C, CHR 0x1D, CHR 0x1E, CHR 0x1F, CHR 0x85, CHR 0xA0]"

text \<open>\<^verbatim>\<open>\s+\<close>, greedy: the longest run first, then each shorter one.\<close>

definition rx_spaces :: rx where
  "rx_spaces s =
     (let n = length (takeWhile (\<lambda>c. c \<in> set whitespace) s)
      in map (\<lambda>k. (take k s, drop k s)) (rev [1..<Suc n]))"

definition rx_Y :: rx where
  "rx_Y = rx_then rx_d (rx_then rx_d (rx_then rx_d rx_d))"

definition rx_m :: rx where
  "rx_m = rx_or (rx_then (rx_set ''1'') (rx_set ''012''))
         (rx_or (rx_then (rx_set ''0'') (rx_set ''123456789''))
                (rx_set ''123456789''))"

definition rx_dd :: rx where
  "rx_dd = rx_or (rx_then (rx_set ''3'') (rx_set ''01''))
          (rx_or (rx_then (rx_set ''12'') rx_d)
          (rx_or (rx_then (rx_set ''0'') (rx_set ''123456789''))
          (rx_or (rx_set ''123456789'')
                 (rx_then (rx_set '' '') (rx_set ''123456789'')))))"

definition rx_H :: rx where
  "rx_H = rx_or (rx_then (rx_set ''2'') (rx_set ''0123''))
         (rx_or (rx_then (rx_set ''01'') rx_d) rx_d)"

definition rx_M :: rx where
  "rx_M = rx_or (rx_then (rx_set ''012345'') rx_d) rx_d"

definition rx_S :: rx where
  "rx_S = rx_or (rx_then (rx_set ''6'') (rx_set ''01''))
         (rx_or (rx_then (rx_set ''012345'') rx_d) rx_d)"

text \<open>The text of a group as a number: \<^verbatim>\<open>int(' 5') = 5\<close>.\<close>

definition digit_val :: "char \<Rightarrow> nat" where
  "digit_val c = of_char c - 48"

definition group_val :: "string \<Rightarrow> nat" where
  "group_val s = foldl (\<lambda>n c. 10 * n + digit_val c) 0 (filter (\<lambda>c. c \<in> set digits) s)"

text \<open>The groups of every match of the whole expression, with what is left of the string.\<close>

definition rx_format :: "string \<Rightarrow> (string list \<times> string) list" where
  "rx_format s =
     concat (map (\<lambda>(gY, r1). concat (map (\<lambda>(_, r2).
     concat (map (\<lambda>(gm, r3). concat (map (\<lambda>(_, r4).
     concat (map (\<lambda>(gd, r5). concat (map (\<lambda>(_, r6).
     concat (map (\<lambda>(gH, r7). concat (map (\<lambda>(_, r8).
     concat (map (\<lambda>(gM, r9). concat (map (\<lambda>(_, r10).
     map (\<lambda>(gS, r11). ([gY, gm, gd, gH, gM, gS], r11)) (rx_S r10))
       (rx_set '':'' r9))) (rx_M r8)))
       (rx_set '':'' r7))) (rx_H r6)))
       (rx_spaces r5))) (rx_dd r4)))
       (rx_set ''-'' r3))) (rx_m r2)))
       (rx_set ''-'' r1))) (rx_Y s))"

definition leap_year :: "nat \<Rightarrow> bool" where
  "leap_year y = (y mod 4 = 0 \<and> (y mod 100 \<noteq> 0 \<or> y mod 400 = 0))"

definition days_in_month :: "nat \<Rightarrow> nat \<Rightarrow> nat" where
  "days_in_month y m =
     (if m = 2 then (if leap_year y then 29 else 28)
      else if m \<in> {4, 6, 9, 11} then 30 else 31)"

text \<open>
  The constructor of \<^verbatim>\<open>datetime\<close> rejects the year 0, a day the month does not have and
  the leap seconds 60 and 61 that the expression lets through.
\<close>

definition strptime :: "string \<Rightarrow> datetime result" where
  "strptime s =
     (case rx_format s of
        [] \<Rightarrow> Inl (ValueError ''time data does not match format'')
      | (g, rest) # _ \<Rightarrow>
          if rest \<noteq> [] then Inl (ValueError ''unconverted data remains'')
          else
            let y = group_val (g ! 0); m = group_val (g ! 1); d = group_val (g ! 2);
                H = group_val (g ! 3); M = group_val (g ! 4); S = group_val (g ! 5)
            in if y < 1 then Inl (ValueError ''year is out of range'')
               else if d < 1 \<or> days_in_month y m < d
                 then Inl (ValueError ''day is out of range for month'')
               else if 59 < S then Inl (ValueError ''second must be in 0..59'')
               else Inr \<lparr>year = y, month = m, day = d, hour = H, minute = M, second = S\<rparr>)"

text \<open>
  \<^verbatim>\<open>__init__\<close>.  The four tables come from the loaders of \<^verbatim>\<open>utils.get_data\<close>, which are
  not part of the model.  Only the greatest \<^verbatim>\<open>Last_Update\<close> string is ever parsed.  The
  envelope is allocated last, so a failed construction leaves the store as it was.
\<close>

definition init ::
  "runtime \<Rightarrow> daily_report list \<Rightarrow> (string \<times> dataframe) list \<Rightarrow> (string \<times> dataframe) list \<Rightarrow>
   (string \<rightharpoonup> string) \<Rightarrow> store \<Rightarrow> service result \<times> store" where
  "init L d tser us lut h =
     (case bind (py_max (map Last_Update d)) (\<lambda>m.
           bind (strptime m) (\<lambda>t.
           bind (mktime L t) (\<lambda>stamp. Inr (m, stamp)))) of
        Inl e \<Rightarrow> (Inl e, h)
      | Inr (m, stamp) \<Rightarrow>
          let (r, h') = alloc \<lparr>data = PNone, dt = m, ts = stamp\<rparr> h
          in (Inr \<lparr>df = d, df_time_series = tser, df_US_time_series = us,
                   lookup_table = lut, df_grp_by_country = groupby_sum d,
                   datetime = m, timestamp = stamp, scheme = r\<rparr>, h'))"

section \<open>Queries on the daily report\<close>

text \<open>
  \<^verbatim>\<open>sort_values(by='Confirmed', ascending=False)\<close>.  For a descending sort pandas
  reverses the keys, sorts them ascending with \<^verbatim>\<open>argsort\<close>, maps the positions back and
  reverses the outcome; the rows are then taken in that order.
\<close>

definition nargsort_desc :: "runtime \<Rightarrow> int list \<Rightarrow> nat list" where
  "nargsort_desc L keys =
     (let n = length keys in rev (map (\<lambda>j. n - 1 - j) (argsort L (rev keys))))"

definition sort_values_desc :: "runtime \<Rightarrow> grouped list \<Rightarrow> grouped list" where
  "sort_values_desc L g = map (\<lambda>i. g ! i) (nargsort_desc L (map g_confirmed g))"

text \<open>
  What numpy promises of \<^verbatim>\<open>argsort\<close> whatever the kind: the positions of \<open>v\<close>, each once,
  in an order in which the keys ascend.  The order of equal keys is left open.
\<close>

definition argsort_ok :: "(int list \<Rightarrow> nat list) \<Rightarrow> int list \<Rightarrow> bool" where
  "argsort_ok f v = (sort (f v) = [0..<length v] \<and> sorted (map (\<lambda>i. v ! i) (f v)))"

text \<open>One row of the renamed frame as \<^verbatim>\<open>to_dict('index')\<close> gives it.\<close>

definition country_record :: "grouped \<Rightarrow> pyval" where
  "country_record g =
     PDict [(''location'', PStr (g_location g)), (''confirmed'', PInt (g_confirmed g)),
            (''deaths'', PInt (g_deaths g)), (''recovered'', PInt (g_recovered g)),
            (''active'', PInt (g_active g))]"

definition get_current :: "runtime \<Rightarrow> service \<Rightarrow> store \<Rightarrow> ref result \<times> store" where
  "get_current L svc h =
     (let df_grp = sort_values_desc L (df_grp_by_country svc);
          d = PList (map country_record df_grp)
      in (Inr (scheme svc), set_data (scheme svc) d h))"

text \<open>\<^verbatim>\<open>country_data['location'].lower()\<close>.\<close>

definition location_lower :: "runtime \<Rightarrow> pyval \<Rightarrow> string result" where
  "location_lower L cd =
     (case cd of
        PDict d \<Rightarrow> bind (dict_get d ''location'')
                    (\<lambda>v. case v of PStr s \<Rightarrow> Inr (str_lower L s) | _ \<Rightarrow> Inl AttributeError)
      | _ \<Rightarrow> Inl TypeError)"

definition py_iter :: "pyval \<Rightarrow> pyval list result" where
  "py_iter v = (case v of PList xs \<Rightarrow> Inr xs | _ \<Rightarrow> Inl TypeError)"

text \<open>
  \<^verbatim>\<open>get_country\<close>.  The call of \<^verbatim>\<open>get_current\<close> has already overwritten the envelope
  when the lookup or the selection of the first match raises.
\<close>

definition get_country :: "runtime \<Rightarrow> service \<Rightarrow> string \<Rightarrow> store \<Rightarrow> ref result \<times> store" where
  "get_country L svc country_name h =
     (case get_current L svc h of
        (Inl e, h1) \<Rightarrow> (Inl e, h1)
      | (Inr r, h1) \<Rightarrow>
         (case bind (py_iter (data (env_at h1 r))) (\<lambda>all_country_data.
               bind (mapM (location_lower L) all_country_data) (\<lambda>locs.
               bind (if country_name \<notin> set locs
                     then (case lookup_table svc (str_upper L country_name) of
                             None \<Rightarrow> Inl (KeyError (str_upper L country_name))
                           | Some c \<Rightarrow> Inr c)
                     else Inr country_name) (\<lambda>name.
               case map fst (filter (\<lambda>(cd, loc). str_lower L name = loc)
                                    (zip all_country_data locs)) of
                 [] \<Rightarrow> Inl IndexError
               | m # _ \<Rightarrow> Inr m))) of
            Inl e \<Rightarrow> (Inl e, h1)
          | Inr m \<Rightarrow> (Inr (scheme svc), set_data (scheme svc) m h1)))"

definition get_confirmed :: "service \<Rightarrow> store \<Rightarrow> ref result \<times> store" where
  "get_confirmed svc h =
     (Inr (scheme svc), set_data (scheme svc) (PInt (column_sum (map Confirmed (df svc)))) h)"

definition get_deaths :: "service \<Rightarrow> store \<Rightarrow> ref result \<times> store" where
  "get_deaths svc h =
     (Inr (scheme svc), set_data (scheme svc) (PInt (column_sum (map Deaths (df svc)))) h)"

definition get_recovered :: "service \<Rightarrow> store \<Rightarrow> ref result \<times> store" where
  "get_recovered svc h =
     (Inr (scheme svc), set_data (scheme svc) (PInt (column_sum (map Recovered (df svc)))) h)"

definition get_active :: "service \<Rightarrow> store \<Rightarrow> ref result \<times> store" where
  "get_active svc h =
     (Inr (scheme svc), set_data (scheme svc) (PInt (column_sum (map Active (df svc)))) h)"

definition get_total :: "service \<Rightarrow> store \<Rightarrow> ref result \<times> store" where
  "get_total svc h =
     (Inr (scheme svc),
      set_data (scheme svc)
        (PDict [(''confirmed'', PInt (column_sum (map Confirmed (df svc)))),
                (''deaths'', PInt (column_sum (map Deaths (df svc)))),
                (''recovered'', PInt (column_sum (map Recovered (df svc)))),
                (''active'', PInt (column_sum (map Active (df svc))))]) h)"

text \<open>What the caller holds after a call: the envelope its reference points to.\<close>

definition returned :: "ref result \<times> store \<Rightarrow> envelope result" where
  "returned out = (case out of (Inl e, h) \<Rightarrow> Inl e | (Inr r, h) \<Rightarrow> Inr (env_at h r))"

text \<open>The \<^verbatim>\<open>data\<close> of the envelope a call returns.\<close>

definition result_data :: "ref result \<times> store \<Rightarrow> pyval result" where
  "result_data out = (case returned out of Inl e \<Rightarrow> Inl e | Inr e \<Rightarrow> Inr (data e))"

section \<open>Time series\<close>

text \<open>
  \<^verbatim>\<open>df.T.to_dict().values()\<close>: one dict per row of the table, from column label to cell.
  A table is rectangular and its column labels are pairwise distinct, as pandas' CSV
  reader makes them.
\<close>

definition T_to_dict :: "dataframe \<Rightarrow> pydict list" where
  "T_to_dict t = map (\<lambda>row. dict_of_items (zip (columns t) row)) (rows t)"

text \<open>\<^verbatim>\<open>int(v)\<close>: a float is truncated towards zero.\<close>

definition truncate :: "rat \<Rightarrow> int" where
  "truncate q = (if 0 \<le> q then \<lfloor>q\<rfloor> else \<lceil>q\<rceil>)"

definition py_int :: "runtime \<Rightarrow> pyval \<Rightarrow> int result" where
  "py_int L v =
     (case v of
        PInt i \<Rightarrow> Inr i
      | PFloat (Finite q) \<Rightarrow> Inr (truncate q)
      | PFloat NaN \<Rightarrow> Inl (ValueError ''cannot convert float NaN to integer'')
      | PFloat (Inf _) \<Rightarrow> Inl OverflowError
      | PStr s \<Rightarrow> (case int_of_str L s of
                     None \<Rightarrow> Inl (ValueError ''invalid literal for int()'')
                   | Some i \<Rightarrow> Inr i)
      | _ \<Rightarrow> Inl TypeError)"

text \<open>
  \<^verbatim>\<open>float(v)\<close>: an integer is rounded to the nearest double and raises where that is
  beyond the range of a double.
\<close>

definition py_float :: "runtime \<Rightarrow> pyval \<Rightarrow> pyfloat result" where
  "py_float L v =
     (case v of
        PInt i \<Rightarrow> (case round_double (of_int i) of
                     Inf _ \<Rightarrow> Inl OverflowError
                   | f \<Rightarrow> Inr f)
      | PFloat f \<Rightarrow> Inr f
      | PStr s \<Rightarrow> (case float_of_str L s of
                     None \<Rightarrow> Inl (ValueError ''could not convert string to float'')
                   | Some f \<Rightarrow> Inr f)
      | _ \<Rightarrow> Inl TypeError)"

definition time_series_entry :: "string \<times> int \<Rightarrow> pyval" where
  "time_series_entry kv = PDict [(''date'', PStr (fst kv)), (''value'', PInt (snd kv))]"

text \<open>
  The dict comprehension \<^verbatim>\<open>{k: int(v) for k, v in data.items() if k not in excluded_cols}\<close>
  followed by the list of \<^verbatim>\<open>{'date': k, 'value': v}\<close>.
\<close>

definition time_series_of :: "runtime \<Rightarrow> string list \<Rightarrow> pydict \<Rightarrow> pyval result" where
  "time_series_of L excluded_cols d =
     bind (mapM (\<lambda>(k, v). bind (py_int L v) (\<lambda>i. Inr (k, i)))
                (filter (\<lambda>(k, v). k \<notin> set excluded_cols) d))
          (\<lambda>kvs. Inr (PList (map time_series_entry (dict_of_items kvs))))"

definition coordinates_of :: "runtime \<Rightarrow> pydict \<Rightarrow> string \<Rightarrow> string \<Rightarrow> pyval result" where
  "coordinates_of L d lat long =
     bind (bind (dict_get d lat) (py_float L)) (\<lambda>la.
     bind (bind (dict_get d long) (py_float L)) (\<lambda>lo.
     Inr (PDict [(''Lat'', PFloat la), (''Long'', PFloat lo)])))"

definition extract_time_series_row :: "runtime \<Rightarrow> pydict \<Rightarrow> pyval result" where
  "extract_time_series_row L d =
     (let excluded_cols = [''Province/State'', ''Country/Region'', ''Lat'', ''Long''] in
      bind (dict_get d ''Province/State'') (\<lambda>ps.
      bind (dict_get d ''Country/Region'') (\<lambda>cr.
      bind (coordinates_of L d ''Lat'' ''Long'') (\<lambda>co.
      bind (time_series_of L excluded_cols d) (\<lambda>tsr.
      Inr (PDict (dict_of_items
        [(''Province/State'', ps), (''Country/Region'', cr),
         (''Coordinates'', co), (''TimeSeries'', tsr)])))))))"

definition extract_time_series :: "runtime \<Rightarrow> pydict list \<Rightarrow> pyval list result" where
  "extract_time_series L time_series = mapM (extract_time_series_row L) time_series"

definition US_info :: "pydict \<Rightarrow> pyval result" where
  "US_info d =
     bind (dict_get d ''UID'') (\<lambda>uid.
     bind (dict_get d ''iso2'') (\<lambda>i2.
     bind (dict_get d ''iso3'') (\<lambda>i3.
     bind (dict_get d ''code3'') (\<lambda>c3.
     bind (dict_get d ''FIPS'') (\<lambda>fips.
     bind (dict_get d ''Admin2'') (\<lambda>adm.
     Inr (PDict [(''UID'', uid), (''iso2'', i2), (''iso3'', i3), (''code3'', c3),
                 (''FIPS'', fips), (''Admin2'', adm)])))))))"

definition US_excluded_cols :: "string list" where
  "US_excluded_cols =
     [''UID'', ''iso2'', ''iso3'', ''code3'', ''FIPS'', ''Admin2'', ''Province_State'',
      ''Country_Region'', ''Lat'', ''Long_'', ''Combined_Key'', ''Population'']"

definition extract_US_time_series_row :: "runtime \<Rightarrow> pydict \<Rightarrow> pyval result" where
  "extract_US_time_series_row L d =
     bind (dict_get d ''Province_State'') (\<lambda>ps.
     bind (dict_get d ''Country_Region'') (\<lambda>cr.
     bind (US_info d) (\<lambda>info.
     bind (coordinates_of L d ''Lat'' ''Long_'') (\<lambda>co.
     bind (time_series_of L US_excluded_cols d) (\<lambda>tsr.
     Inr (PDict (dict_of_items
       [(''Province_State'', ps), (''Country_Region'', cr), (''Info'', info),
        (''Coordinates'', co), (''TimeSeries'', tsr)])))))))"

definition extract_US_time_series :: "runtime \<Rightarrow> pydict list \<Rightarrow> pyval list result" where
  "extract_US_time_series L time_series = mapM (extract_US_time_series_row L) time_series"

subsection \<open>The global totals\<close>

text \<open>
  \<^verbatim>\<open>astype('int32')\<close> on one cell: a 64-bit integer keeps its low 32 bits, a float is
  truncated, a NaN or an infinity raises.
\<close>

definition wrap32 :: "int \<Rightarrow> int" where
  "wrap32 i = (i + 2 ^ 31) mod 2 ^ 32 - 2 ^ 31"

definition astype_int32 :: "runtime \<Rightarrow> pyval \<Rightarrow> int result" where
  "astype_int32 L v =
     (case v of
        PInt i \<Rightarrow> Inr (wrap32 i)
      | PFloat (Finite q) \<Rightarrow>
          (let t = truncate q
           in if - (2 ^ 31) \<le> t \<and> t < 2 ^ 31 then Inr t else Inr (float_to_int32 L q))
      | PFloat _ \<Rightarrow> Inl (ValueError ''Cannot convert non-finite values (NA or inf) to integer'')
      | PStr s \<Rightarrow> (case int_of_str L s of
                     None \<Rightarrow> Inl (ValueError ''invalid literal for int()'')
                   | Some i \<Rightarrow> Inr (wrap32 i))
      | _ \<Rightarrow> Inl TypeError)"

text \<open>
  \<^verbatim>\<open>df.iloc[:, 4:].astype('int32').sum(axis=0)\<close>: the series of the column sums, from
  the fifth column on, labelled by the column.
\<close>

definition column_sums :: "runtime \<Rightarrow> dataframe \<Rightarrow> (string \<times> int) list result" where
  "column_sums L t =
     mapM (\<lambda>j. bind (mapM (\<lambda>row. astype_int32 L (row ! j)) (rows t))
                     (\<lambda>cells. Inr (columns t ! j, sum_list cells)))
          [4..<length (columns t)]"

text \<open>
  The row labels of \<^verbatim>\<open>pd.concat(..., axis=1, sort=False)\<close>: the labels of the first
  series, then every new label in the order in which it first appears.
\<close>

definition union_index :: "string list list \<Rightarrow> string list" where
  "union_index ixs = foldl (\<lambda>seen l. if l \<in> set seen then seen else seen @ [l]) [] (concat ixs)"

text \<open>
  A cell of the concatenated frame is a NaN where the series has no such label.  A frame
  with a NaN anywhere holds floats after the transposition, otherwise integers.
\<close>

definition concat_cell :: "bool \<Rightarrow> (string \<times> int) list \<Rightarrow> string \<Rightarrow> pyval" where
  "concat_cell as_float series label =
     (case map_of series label of
        None \<Rightarrow> PFloat NaN
      | Some n \<Rightarrow> if as_float then PFloat (Finite (of_int n)) else PInt n)"

definition extract_time_series_global ::
  "runtime \<Rightarrow> (string \<times> dataframe) list \<Rightarrow> pyval list result" where
  "extract_time_series_global L dataframe_dict =
     bind (mapM (\<lambda>(key, t). bind (column_sums L t) (\<lambda>s. Inr (key, s))) dataframe_dict)
       (\<lambda>global_df_list.
          if global_df_list = [] then Inl (ValueError ''No objects to concatenate'')
          else
            let labels = union_index (map (\<lambda>(key, s). map fst s) global_df_list);
                as_float = list_ex (\<lambda>(key, s). list_ex (\<lambda>l. map_of s l = None) labels)
                                   global_df_list;
                global_dict = dict_of_items
                  (map (\<lambda>l. (l, PDict (dict_of_items
                     (map (\<lambda>(key, s). (key, concat_cell as_float s l)) global_df_list))))
                     labels)
            in Inr (map (\<lambda>(k, v). PDict [(k, v)]) global_dict))"

definition get_time_series :: "runtime \<Rightarrow> service \<Rightarrow> string \<Rightarrow> store \<Rightarrow> ref result \<times> store" where
  "get_time_series L svc case_name h =
     (case (if case_name \<noteq> ''global''
            then bind (dict_get (df_time_series svc) case_name)
                      (\<lambda>t. extract_time_series L (T_to_dict t))
            else extract_time_series_global L (df_time_series svc)) of
        Inl e \<Rightarrow> (Inl e, h)
      | Inr d \<Rightarrow> (Inr (scheme svc), set_data (scheme svc) (PList d) h))"

definition get_US_time_series :: "runtime \<Rightarrow> service \<Rightarrow> string \<Rightarrow> store \<Rightarrow> ref result \<times> store" where
  "get_US_time_series L svc case_name h =
     (case (if case_name \<notin> set [''confirmed'', ''deaths''] then Inr []
            else bind (dict_get (df_US_time_series svc) case_name)
                      (\<lambda>t. extract_US_time_series L (T_to_dict t))) of
        Inl e \<Rightarrow> (Inl e, h)
      | Inr d \<Rightarrow> (Inr (scheme svc), set_data (scheme svc) (PList d) h))"

section \<open>Sequences of calls\<close>

datatype query =
    GetCurrent
  | GetCountry string
  | GetConfirmed
  | GetDeaths
  | GetRecovered
  | GetActive
  | GetTotal
  | GetTimeSeries string
  | GetUSTimeSeries string

fun call :: "runtime \<Rightarrow> service \<Rightarrow> query \<Rightarrow> store \<Rightarrow> ref result \<times> store" where
  "call L svc GetCurrent h = get_current L svc h"
| "call L svc (GetCountry n) h = get_country L svc n h"
| "call L svc GetConfirmed h = get_confirmed svc h"
| "call L svc GetDeaths h = get_deaths svc h"
| "call L svc GetRecovered h = get_recovered svc h"
| "call L svc GetActive h = get_active svc h"
| "call L svc GetTotal h = get_total svc h"
| "call L svc (GetTimeSeries c) h = get_time_series L svc c h"
| "call L svc (GetUSTimeSeries c) h = get_US_time_series L svc c h"

text \<open>
  The store after a sequence of calls on one service; a call that raises is caught by the
  caller and the next call goes on from the store it left.
\<close>

fun run :: "runtime \<Rightarrow> service \<Rightarrow> query list \<Rightarrow> store \<Rightarrow> store" where
  "run L svc [] h = h"
| "run L svc (q # qs) h = run L svc qs (snd (call L svc q h))"

section \<open>A reference runtime\<close>

subsection \<open>numpy's quicksort\<close>

text \<open>
  \<^verbatim>\<open>argsort(kind='quicksort')\<close> as numpy's generic \<^verbatim>\<open>aquicksort\<close> computes it, on the
  array \<open>a\<close> of positions into the keys \<open>v\<close>: a range of more than 16 positions is
  partitioned around the median of its first, middle and last key, a smaller range is
  sorted by insertion, and a range reached after too many partitions by heapsort.  The
  C code keeps the ranges still to be sorted on a stack; they are disjoint, so the model
  recurses on them instead.  The scans stop at the sentinels that the median selection
  leaves at both ends of a range.
\<close>

definition swap :: "nat list \<Rightarrow> nat \<Rightarrow> nat \<Rightarrow> nat list" where
  "swap a i j = a[i := a ! j, j := a ! i]"

text \<open>\<^verbatim>\<open>do ++pi; while (v[*pi] < vp);\<close>\<close>

function scan_up :: "int list \<Rightarrow> nat list \<Rightarrow> int \<Rightarrow> nat \<Rightarrow> nat" where
  "scan_up v a vp i =
     (if Suc i < length a \<and> v ! (a ! Suc i) < vp then scan_up v a vp (Suc i) else Suc i)"
  by pat_completeness auto
termination
  by (relation "measure (\<lambda>(v, a, vp, i). length a - i)") auto

declare scan_up.simps [simp del]

text \<open>\<^verbatim>\<open>do --pj; while (vp < v[*pj]);\<close>\<close>

fun scan_down :: "int list \<Rightarrow> nat list \<Rightarrow> int \<Rightarrow> nat \<Rightarrow> nat" where
  "scan_down v a vp 0 = 0"
| "scan_down v a vp (Suc j) = (if vp < v ! (a ! j) then scan_down v a vp j else j)"

lemma scan_up_gt: "i < scan_up v a vp i"
proof (induction v a vp i rule: scan_up.induct)
  case (1 v a vp i)
  show ?case
  proof (cases "Suc i < length a \<and> v ! (a ! Suc i) < vp")
    case True
    then have "scan_up v a vp i = scan_up v a vp (Suc i)"
      by (subst scan_up.simps) simp
    moreover have "Suc i < scan_up v a vp (Suc i)"
      using 1 True by simp
    ultimately show ?thesis by simp
  next
    case False
    show ?thesis
      by (subst scan_up.simps) (simp only: False if_False lessI)
  qed
qed

lemma scan_down_le: "scan_down v a vp j \<le> j - 1"
  by (induction j) auto

function partition_loop :: "int list \<Rightarrow> nat list \<Rightarrow> int \<Rightarrow> nat \<Rightarrow> nat \<Rightarrow> nat list \<times> nat" where
  "partition_loop v a vp i j =
     (let i' = scan_up v a vp i; j' = scan_down v a vp j
      in if j' \<le> i' then (a, i') else partition_loop v (swap a i' j') vp i' j')"
  by pat_completeness auto
termination
proof (relation "measure (\<lambda>(v, a, vp, i, j). j - i)", goal_cases)
  case 1
  show ?case by simp
next
  case (2 v a vp i j i' j')
  have "i < i'"
    using 2 scan_up_gt by simp
  moreover have "j' \<le> j - 1"
    using 2 scan_down_le by simp
  ultimately show ?case
    using 2 by simp
qed

declare partition_loop.simps [simp del]

definition partition :: "int list \<Rightarrow> nat list \<Rightarrow> nat \<Rightarrow> nat \<Rightarrow> nat list \<times> nat" where
  "partition v a pl pr =
     (let pm = pl + (pr - pl) div 2;
          a = (if v ! (a ! pm) < v ! (a ! pl) then swap a pm pl else a);
          a = (if v ! (a ! pr) < v ! (a ! pm) then swap a pr pm else a);
          a = (if v ! (a ! pm) < v ! (a ! pl) then swap a pm pl else a);
          vp = v ! (a ! pm);
          a = swap a pm (pr - 1);
          (a, i) = partition_loop v a vp pl (pr - 1)
      in (swap a i (pr - 1), i))"

fun insert_down :: "int list \<Rightarrow> nat list \<Rightarrow> nat \<Rightarrow> int \<Rightarrow> nat \<Rightarrow> nat list \<times> nat" where
  "insert_down v a pl vp 0 = (a, 0)"
| "insert_down v a pl vp (Suc k) =
     (if pl < Suc k \<and> vp < v ! (a ! k) then insert_down v (a[Suc k := a ! k]) pl vp k
      else (a, Suc k))"

definition insertion_sort :: "int list \<Rightarrow> nat list \<Rightarrow> nat \<Rightarrow> nat \<Rightarrow> nat list" where
  "insertion_sort v a pl pr =
     foldl (\<lambda>a i. let vi = a ! i; (a, j) = insert_down v a pl (v ! vi) i in a[j := vi])
           a [Suc pl..<Suc pr]"

text \<open>
  \<^verbatim>\<open>aheapsort\<close> on the \<open>n\<close> positions from \<open>pl\<close> on; the heap counts its elements from 1.
\<close>

function sift_down ::
  "int list \<Rightarrow> nat list \<Rightarrow> nat \<Rightarrow> nat \<Rightarrow> nat \<Rightarrow> nat \<Rightarrow> nat \<Rightarrow> nat list" where
  "sift_down v a pl n tmp i j =
     (if 0 < j \<and> j \<le> n then
        (let j = (if j < n \<and> v ! (a ! (pl + j - 1)) < v ! (a ! (pl + j)) then j + 1 else j)
         in if v ! tmp < v ! (a ! (pl + j - 1))
            then sift_down v (a[pl + i - 1 := a ! (pl + j - 1)]) pl n tmp j (j + j)
            else a[pl + i - 1 := tmp])
      else a[pl + i - 1 := tmp])"
  by pat_completeness auto
termination
  by (relation "measure (\<lambda>(v, a, pl, n, tmp, i, j). Suc n - j)") auto

declare sift_down.simps [simp del]

definition aheapsort :: "int list \<Rightarrow> nat list \<Rightarrow> nat \<Rightarrow> nat \<Rightarrow> nat list" where
  "aheapsort v a pl n =
     (let a = foldl (\<lambda>a l. sift_down v a pl n (a ! (pl + l - 1)) l (2 * l))
                    a (rev [1..<Suc (n div 2)])
      in foldl (\<lambda>a m. let tmp = a ! (pl + m - 1); a = a[pl + m - 1 := a ! pl]
                      in sift_down v a pl (m - 1) tmp 1 2)
               a (rev [2..<Suc n]))"

text \<open>
  One range with the partitions still allowed for it; \<open>popped\<close> tells a range taken from
  the stack, where alone the C code looks at the depth.  The smaller part of a partition
  is sorted first.
\<close>

function aquicksort_range ::
  "int list \<Rightarrow> nat list \<Rightarrow> nat \<Rightarrow> nat \<Rightarrow> int \<Rightarrow> bool \<Rightarrow> nat list" where
  "aquicksort_range v a pl pr cdepth popped =
     (if popped \<and> cdepth < 0 then aheapsort v a pl (pr - pl + 1)
      else if 15 < pr - pl then
        (let (a', p) = partition v a pl pr
         in if pl < p \<and> p < pr then
              (if p - pl < pr - p
               then aquicksort_range v
                      (aquicksort_range v a' pl (p - 1) (cdepth - 1) False)
                      (p + 1) pr (cdepth - 1) True
               else aquicksort_range v
                      (aquicksort_range v a' (p + 1) pr (cdepth - 1) False)
                      pl (p - 1) (cdepth - 1) True)
            else a')
      else insertion_sort v a pl pr)"
  by pat_completeness auto
termination
  by (relation "measure (\<lambda>(v, a, pl, pr, cdepth, popped). pr - pl)") auto

declare aquicksort_range.simps [simp del]

fun msb :: "nat \<Rightarrow> nat" where
  "msb n = (if n \<le> 1 then 0 else Suc (msb (n div 2)))"

declare msb.simps [simp del]

definition aquicksort :: "int list \<Rightarrow> nat list" where
  "aquicksort v =
     (let num = length v
      in if num = 0 then []
         else aquicksort_range v [0..<num] 0 (num - 1) (2 * int (msb num)) True)"

subsection \<open>Timestamps in UTC\<close>

text \<open>\<^verbatim>\<open>date.toordinal()\<close>: the days since the day before 1 January of the year 1.\<close>

definition days_before_year :: "int \<Rightarrow> int" where
  "days_before_year y = (let p = y - 1 in 365 * p + p div 4 - p div 100 + p div 400)"

definition days_before_month :: "nat \<Rightarrow> nat \<Rightarrow> int" where
  "days_before_month y m =
     [0, 31, 59, 90, 120, 151, 181, 212, 243, 273, 304, 334] ! (m - 1)
     + (if 2 < m \<and> leap_year y then 1 else 0)"

definition toordinal :: "datetime \<Rightarrow> int" where
  "toordinal t =
     days_before_year (int (year t)) + days_before_month (year t) (month t) + int (day t)"

text \<open>
  \<^verbatim>\<open>timestamp()\<close> where the local time zone is UTC: the seconds since
  1 January 1970, whose ordinal is 719163.  To tell the two readings of a repeated
  local time apart, CPython also converts the time one day earlier, which raises on
  1 January of the year 1, where that day is in the year 0.
\<close>

definition utc_timestamp :: "datetime \<Rightarrow> int result" where
  "utc_timestamp t =
     (if toordinal t = 1 then Inl (ValueError ''year 0 is out of range'')
      else Inr ((toordinal t - 719163) * 86400
                + int (hour t) * 3600 + int (minute t) * 60 + int (second t)))"

subsection \<open>Case mappings\<close>

text \<open>
  \<^verbatim>\<open>str.lower()\<close> and \<^verbatim>\<open>str.upper()\<close> on code points below 256.  The capital of the
  sharp s is \<^verbatim>\<open>SS\<close>; the capitals of the micro sign and of the y with diaeresis lie
  beyond code point 255 and are not represented, so these two letters are left as they
  are.
\<close>

definition latin1_lower_char :: "char \<Rightarrow> char" where
  "latin1_lower_char c =
     (let n = of_char c :: nat
      in if (65 \<le> n \<and> n \<le> 90) \<or> (192 \<le> n \<and> n \<le> 222 \<and> n \<noteq> 215)
         then char_of (n + 32) else c)"

definition latin1_lower :: "string \<Rightarrow> string" where
  "latin1_lower s = map latin1_lower_char s"

definition latin1_upper_char :: "char \<Rightarrow> string" where
  "latin1_upper_char c =
     (let n = of_char c :: nat
      in if n = 223 then ''SS''
         else if (97 \<le> n \<and> n \<le> 122) \<or> (224 \<le> n \<and> n \<le> 254 \<and> n \<noteq> 247)
         then [char_of (n - 32)] else [c])"

definition latin1_upper :: "string \<Rightarrow> string" where
  "latin1_upper s = concat (map latin1_upper_char s)"

subsection \<open>Numbers from strings\<close>

text \<open>
  \<^verbatim>\<open>int(s)\<close> and \<^verbatim>\<open>float(s)\<close> as CPython 3.11 reads a string: whitespace around the
  number is dropped, a sign may lead, and one underscore may stand between two digits.
  \<^verbatim>\<open>int\<close> refuses more than 4300 digits.
\<close>

definition strip :: "string \<Rightarrow> string" where
  "strip s =
     rev (dropWhile (\<lambda>c. c \<in> set whitespace) (rev (dropWhile (\<lambda>c. c \<in> set whitespace) s)))"

definition split_sign :: "string \<Rightarrow> bool \<times> string" where
  "split_sign s =
     (case s of
        [] \<Rightarrow> (False, [])
      | c # r \<Rightarrow> if c = CHR ''-'' then (True, r) else if c = CHR ''+'' then (False, r)
                 else (False, s))"

text \<open>
  The digits of a string of the form \<^verbatim>\<open>digit (["_"] digit)*\<close>, and \<open>None\<close> for any
  other string.
\<close>

fun digit_run :: "string \<Rightarrow> string option" where
  "digit_run [] = None"
| "digit_run [c] = (if c \<in> set digits then Some [c] else None)"
| "digit_run (c # d # cs) =
     (if c \<notin> set digits then None
      else if d = CHR ''_'' then map_option ((#) c) (digit_run cs)
      else map_option ((#) c) (digit_run (d # cs)))"

definition digits_value :: "string \<Rightarrow> int" where
  "digits_value ds = foldl (\<lambda>n c. 10 * n + int (digit_val c)) 0 ds"

definition int_literal :: "string \<Rightarrow> int option" where
  "int_literal s =
     (let (neg, body) = split_sign (strip s)
      in case digit_run body of
           None \<Rightarrow> None
         | Some ds \<Rightarrow>
             if 4300 < length ds then None
             else Some (if neg then - digits_value ds else digits_value ds))"

text \<open>
  The exponent after \<^verbatim>\<open>e\<close> or \<^verbatim>\<open>E\<close>; \<open>ex\<close> is the rest of the string from that letter
  on, empty where there is no exponent.
\<close>

definition exponent_literal :: "string \<Rightarrow> int option" where
  "exponent_literal ex =
     (if ex = [] then Some 0
      else let (neg, body) = split_sign (tl ex)
           in map_option (\<lambda>ds. if neg then - digits_value ds else digits_value ds)
                (digit_run body))"

text \<open>The digits before and after the point; one of the two parts may be missing.\<close>

definition mantissa_literal :: "string \<Rightarrow> (string \<times> string) option" where
  "mantissa_literal m =
     (let ip = takeWhile (\<lambda>c. c \<noteq> CHR ''.'') m;
          rest = dropWhile (\<lambda>c. c \<noteq> CHR ''.'') m;
          fp = (if rest = [] then [] else tl rest)
      in if ip = [] \<and> fp = [] then None
         else case (if ip = [] then Some [] else digit_run ip,
                    if fp = [] then Some [] else digit_run fp) of
                (Some i, Some f) \<Rightarrow> Some (i, f)
              | _ \<Rightarrow> None)"

definition pow10 :: "int \<Rightarrow> rat" where
  "pow10 e = (if 0 \<le> e then 10 ^ nat e else 1 / 10 ^ nat (- e))"

definition float_literal :: "string \<Rightarrow> pyfloat option" where
  "float_literal s =
     (let (neg, body) = split_sign (strip s);
          word = latin1_lower body
      in if word = ''inf'' \<or> word = ''infinity'' then Some (Inf (\<not> neg))
         else if word = ''nan'' then Some NaN
         else
           let m = takeWhile (\<lambda>c. c \<noteq> CHR ''e'' \<and> c \<noteq> CHR ''E'') body;
               ex = dropWhile (\<lambda>c. c \<noteq> CHR ''e'' \<and> c \<noteq> CHR ''E'') body
           in case (mantissa_literal m, exponent_literal ex) of
                (Some (i, f), Some e) \<Rightarrow>
                  let q = of_int (digits_value (i @ f)) * pow10 (e - int (length f))
                  in Some (round_double (if neg then - q else q))
              | _ \<Rightarrow> None)"

text \<open>
  The runtime at which the model is evaluated on concrete tables: numpy's generic
  quicksort, Python's case mappings and number syntax on code points below 256, the time
  zone UTC, an out-of-range double converted as x86 does it.
\<close>

definition reference_runtime :: runtime where
  "reference_runtime =
     \<lparr>argsort = aquicksort, str_lower = latin1_lower, str_upper = latin1_upper,
      int_of_str = int_literal, float_of_str = float_literal,
      float_to_int32 = (\<lambda>q. - (2 ^ 31)), mktime = utc_timestamp\<rparr>"

section \<open>Sample tables\<close>

text \<open>
  A store with nothing allocated, a small daily report with one row whose \<^verbatim>\<open>Last_Update\<close>
  is in the older format of the upstream data, and the service constructed from it.
\<close>

definition empty_store :: store where
  "empty_store = \<lparr>next_ref = 0, env_at = (\<lambda>r. \<lparr>data = PNone, dt = [], ts = 0\<rparr>)\<rparr>"

definition sample_reports :: "daily_report list" where
  "sample_reports =
     [\<lparr>Country_Region = ''Thailand'', Last_Update = ''2020-03-14 10:00:00'',
       Confirmed = 5, Deaths = 1, Recovered = 2, Active = 2\<rparr>,
      \<lparr>Country_Region = ''US'', Last_Update = ''1/22/20 17:00'',
       Confirmed = 9, Deaths = 0, Recovered = 0, Active = 9\<rparr>,
      \<lparr>Country_Region = ''Thailand'', Last_Update = ''2020-03-13 09:00:00'',
       Confirmed = 3, Deaths = 0, Recovered = 1, Active = 2\<rparr>]"

definition sample_time_series :: "(string \<times> dataframe) list" where
  "sample_time_series =
     [(''confirmed'',
       \<lparr>columns = [''Province/State'', ''Country/Region'', ''Lat'', ''Long'', ''1/22/20'', ''1/23/20''],
        rows = [[PFloat NaN, PStr ''Thailand'', PFloat (Finite 15), PFloat (Finite 101), PInt 2, PInt 3],
                [PStr ''Hubei'', PStr ''China'', PFloat (Finite (61 / 2)),
                 PFloat (Finite (225 / 2)), PInt 444, PInt 444]]\<rparr>),
      (''deaths'',
       \<lparr>columns = [''Province/State'', ''Country/Region'', ''Lat'', ''Long'', ''1/22/20'', ''1/23/20''],
        rows = [[PFloat NaN, PStr ''Thailand'', PFloat (Finite 15), PFloat (Finite 101), PInt 0, PInt 0],
                [PStr ''Hubei'', PStr ''China'', PFloat (Finite (61 / 2)),
                 PFloat (Finite (225 / 2)), PInt 17, PInt 17]]\<rparr>),
      (''recovered'',
       \<lparr>columns = [''Province/State'', ''Country/Region'', ''Lat'', ''Long'', ''1/22/20'', ''1/23/20''],
        rows = [[PFloat NaN, PStr ''Thailand'', PFloat (Finite 15), PFloat (Finite 101), PInt 0, PInt 0],
                [PStr ''Hubei'', PStr ''China'', PFloat (Finite (61 / 2)),
                 PFloat (Finite (225 / 2)), PInt 28, PInt 28]]\<rparr>)]"

definition sample_US_confirmed_table :: dataframe where
  "sample_US_confirmed_table =
     \<lparr>columns = [''UID'', ''iso2'', ''iso3'', ''code3'', ''FIPS'', ''Admin2'', ''Province_State'',
                 ''Country_Region'', ''Lat'', ''Long_'', ''Combined_Key'', ''1/22/20'', ''1/23/20''],
      rows = [[PInt 84001001, PStr ''US'', PStr ''USA'', PInt 840, PFloat (Finite 1001),
               PStr ''Autauga'', PStr ''Alabama'', PStr ''US'', PFloat (Finite (65 / 2)),
               PFloat (Finite (- 173 / 2)), PStr ''Autauga, Alabama, US'', PInt 0,
               PFloat (Finite (3 / 2))]]\<rparr>"

definition sample_US_deaths_table :: dataframe where
  "sample_US_deaths_table =
     \<lparr>columns = [''UID'', ''iso2'', ''iso3'', ''code3'', ''FIPS'', ''Admin2'', ''Province_State'',
                 ''Country_Region'', ''Lat'', ''Long_'', ''Combined_Key'', ''Population'',
                 ''1/22/20'', ''1/23/20''],
      rows = [[PInt 84001001, PStr ''US'', PStr ''USA'', PInt 840, PFloat (Finite 1001),
               PStr ''Autauga'', PStr ''Alabama'', PStr ''US'', PFloat (Finite (65 / 2)),
               PFloat (Finite (- 173 / 2)), PStr ''Autauga, Alabama, US'', PInt 55869,
               PInt 0, PInt 0]]\<rparr>"

definition sample_US_time_series :: "(string \<times> dataframe) list" where
  "sample_US_time_series =
     [(''confirmed'', sample_US_confirmed_table), (''deaths'', sample_US_deaths_table)]"

definition sample_lookup :: "string \<rightharpoonup> string" where
  "sample_lookup = [''TH'' \<mapsto> ''Thailand'', ''US'' \<mapsto> ''US'']"

definition sample_service :: service where
  "sample_service =
     \<lparr>df = sample_reports, df_time_series = sample_time_series,
      df_US_time_series = sample_US_time_series, lookup_table = sample_lookup,
      df_grp_by_country = groupby_sum sample_reports,
      datetime = ''2020-03-14 10:00:00'', timestamp = 1584180000, scheme = 0\<rparr>"

definition sample_store :: store where
  "sample_store = snd (alloc \<lparr>data = PNone, dt = ''2020-03-14 10:00:00'', ts = 1584180000\<rparr> empty_store)"

text \<open>
  Eighteen countries \<^verbatim>\<open>A\<close> to \<^verbatim>\<open>R\<close> with the same counts, and the service constructed from
  them.
\<close>

definition tied_reports :: "daily_report list" where
  "tied_reports =
     map (\<lambda>c. \<lparr>Country_Region = [c], Last_Update = ''2020-03-14 10:00:00'',
                Confirmed = 7, Deaths = 0, Recovered = 0, Active = 7\<rparr>)
         ''ABCDEFGHIJKLMNOPQR''"

definition tied_service :: service where
  "tied_service =
     \<lparr>df = tied_reports, df_time_series = [], df_US_time_series = [],
      lookup_table = Map.empty, df_grp_by_country = groupby_sum tied_reports,
      datetime = ''2020-03-14 10:00:00'', timestamp = 1584180000, scheme = 0\<rparr>"

text \<open>Two rows whose counts of \<open>2 ^ 62\<close> add up beyond 64 bits.\<close>

definition overflow_reports :: "daily_report list" where
  "overflow_reports =
     [\<lparr>Country_Region = ''X'', Last_Update = ''2020-03-14 10:00:00'',
       Confirmed = 4611686018427387904, Deaths = 0, Recovered = 0,
       Active = 4611686018427387904\<rparr>,
      \<lparr>Country_Region = ''X'', Last_Update = ''2020-03-14 10:00:00'',
       Confirmed = 4611686018427387904, Deaths = 0, Recovered = 0,
       Active = 4611686018427387904\<rparr>]"

definition overflow_service :: service where
  "overflow_service =
     \<lparr>df = overflow_reports, df_time_series = [], df_US_time_series = [],
      lookup_table = Map.empty, df_grp_by_country = groupby_sum overflow_reports,
      datetime = ''2020-03-14 10:00:00'', timestamp = 1584180000, scheme = 0\<rparr>"

text \<open>The integers in the date columns of the sample tables, by case kind.\<close>

definition sample_cells :: "string \<Rightarrow> int list list" where
  "sample_cells key =
     (if key = ''confirmed'' then [[2, 3], [444, 444]]
      else if key = ''deaths'' then [[0, 0], [17, 17]] else [[0, 0], [28, 28]])"

section \<open>The shared envelope\<close>

lemma result_data_set_data [simp]: "result_data (Inr r, set_data r v h) = Inr v"
  by (simp add: result_data_def returned_def set_data_def)

lemma set_data_same: "set_data r (data (env_at h r)) h = h"
  by (simp add: set_data_def)

lemma get_country_store: "\<exists>v. snd (get_country L svc n h) = set_data (scheme svc) v h"
proof -
  have 1: "set_data r v (set_data r w h) = set_data r v h" for r v w
    by (simp add: set_data_def)
  show ?thesis
    unfolding get_country_def get_current_def Let_def
    by (auto simp: 1 split: sum.splits prod.splits)
qed

lemma call_store: "\<exists>v. snd (call L svc q h) = set_data (scheme svc) v h"
proof (cases q)
  case (GetCountry n)
  then show ?thesis using get_country_store by simp
next
  case (GetTimeSeries c)
  then show ?thesis
    using set_data_same [of "scheme svc" h, symmetric]
    by (auto simp: get_time_series_def split: sum.splits)
next
  case (GetUSTimeSeries c)
  then show ?thesis
    using set_data_same [of "scheme svc" h, symmetric]
    by (auto simp: get_US_time_series_def split: sum.splits)
qed (auto simp: get_current_def get_confirmed_def get_deaths_def get_recovered_def
       get_active_def get_total_def Let_def)

lemma call_ref: "fst (call L svc q h) = Inr r \<Longrightarrow> r = scheme svc"
  by (cases q)
     (auto simp: get_current_def get_confirmed_def get_deaths_def get_recovered_def
        get_active_def get_total_def get_country_def get_time_series_def
        get_US_time_series_def Let_def split: sum.splits prod.splits)


lemma sample_max: "py_max (map Last_Update sample_reports) = Inr ''2020-03-14 10:00:00''"
  by code_simp

lemma sample_strptime:
  "strptime ''2020-03-14 10:00:00'' =
     Inr \<lparr>year = 2020, month = 3, day = 14, hour = 10, minute = 0, second = 0\<rparr>"
  by code_simp

lemma sample_utc:
  "utc_timestamp \<lparr>year = 2020, month = 3, day = 14, hour = 10, minute = 0, second = 0\<rparr>
     = Inr 1584180000"
  by (simp add: utc_timestamp_def toordinal_def days_before_year_def days_before_month_def
        leap_year_def)

lemma sample_init:
  "init reference_runtime sample_reports sample_time_series sample_US_time_series
     sample_lookup empty_store = (Inr sample_service, sample_store)"
  by (simp add: init_def sample_max sample_strptime sample_utc bind_def reference_runtime_def
        alloc_def empty_store_def sample_service_def sample_store_def)

lemma init_Inr:
  assumes "init L d tser us lut h0 = (Inr svc, h1)"
  shows "py_max (map Last_Update d) = Inr (datetime svc)"
    and "bind (strptime (datetime svc)) (mktime L) = Inr (timestamp svc)"
    and "env_at h1 (scheme svc) = \<lparr>data = PNone, dt = datetime svc, ts = timestamp svc\<rparr>"
    and "scheme svc = next_ref h0" and "next_ref h1 = Suc (next_ref h0)"
    and "df svc = d" and "df_grp_by_country svc = groupby_sum d"
  using assms
  by (auto simp: init_def bind_def alloc_def Let_def split: sum.splits prod.splits)

lemma run_stamps:
  "dt (env_at (run L svc qs h) r) = dt (env_at h r) \<and> ts (env_at (run L svc qs h) r) = ts (env_at h r)
   \<and> next_ref (run L svc qs h) = next_ref h"
proof (induction qs arbitrary: h)
  case Nil
  show ?case by simp
next
  case (Cons q qs)
  obtain v where v: "snd (call L svc q h) = set_data (scheme svc) v h"
    using call_store by blast
  show ?case
    using Cons [of "set_data (scheme svc) v h"] by (simp add: v set_data_def)
qed

lemma run_others: "r \<noteq> scheme svc \<Longrightarrow> env_at (run L svc qs h) r = env_at h r"
proof (induction qs arbitrary: h)
  case Nil
  show ?case by simp
next
  case (Cons q qs)
  obtain v where v: "snd (call L svc q h) = set_data (scheme svc) v h"
    using call_store by blast
  show ?case
    using Cons.IH [OF Cons.prems, of "set_data (scheme svc) v h"] Cons.prems
    by (simp add: v set_data_def)
qed

text \<open>
  C9: after a successful construction, \<open>dt\<close> and \<open>ts\<close> are the greatest
  \<^verbatim>\<open>Last_Update\<close> string of the daily report and its timestamp; every query method that
  returns hands back the one reference \<^verbatim>\<open>self.scheme\<close>; a call changes the store at most
  by overwriting the \<open>data\<close> of that envelope; and after every sequence of calls, failed
  ones included, \<open>dt\<close> and \<open>ts\<close> of the envelope are the values of the construction and
  every other envelope of the store is as it was.
\<close>

theorem envelope_shared_stamps_kept:
  assumes "init L d tser us lut h0 = (Inr svc, h1)"
  shows "py_max (map Last_Update d) = Inr (datetime svc)
     \<and> bind (strptime (datetime svc)) (mktime L) = Inr (timestamp svc)
     \<and> (\<forall>q h r h'. call L svc q h = (Inr r, h') \<longrightarrow> r = scheme svc)
     \<and> (\<forall>q h. \<exists>v. snd (call L svc q h) = set_data (scheme svc) v h)
     \<and> (\<forall>qs. dt (env_at (run L svc qs h1) (scheme svc)) = datetime svc
            \<and> ts (env_at (run L svc qs h1) (scheme svc)) = timestamp svc
            \<and> (\<forall>r. r \<noteq> scheme svc \<longrightarrow> env_at (run L svc qs h1) r = env_at h1 r))"
proof -
  have "\<forall>q h r h'. call L svc q h = (Inr r, h') \<longrightarrow> r = scheme svc"
    using call_ref by (metis fst_conv)
  moreover have "\<forall>q h. \<exists>v. snd (call L svc q h) = set_data (scheme svc) v h"
    using call_store by blast
  moreover have "\<forall>qs. dt (env_at (run L svc qs h1) (scheme svc)) = datetime svc
            \<and> ts (env_at (run L svc qs h1) (scheme svc)) = timestamp svc
            \<and> (\<forall>r. r \<noteq> scheme svc \<longrightarrow> env_at (run L svc qs h1) r = env_at h1 r)"
    using run_stamps [of L svc _ h1 "scheme svc"] run_others [of _ svc L _ h1]
      init_Inr(3) [OF assms] by simp
  ultimately show ?thesis
    using init_Inr(1,2) [OF assms] by blast
qed

theorem envelope_shared_stamps_kept_witness:
  "init reference_runtime sample_reports sample_time_series sample_US_time_series
     sample_lookup empty_store = (Inr sample_service, sample_store)
   \<and> call reference_runtime sample_service GetConfirmed sample_store
       = (Inr 0, set_data 0 (PInt 17) sample_store)
   \<and> dt (env_at (run reference_runtime sample_service [GetConfirmed, GetCountry ''th'', GetTotal]
                   sample_store) 0) = ''2020-03-14 10:00:00''
   \<and> ts (env_at (run reference_runtime sample_service [GetConfirmed, GetCountry ''th'', GetTotal]
                   sample_store) 0) = 1584180000"
proof -
  have c: "call reference_runtime sample_service GetConfirmed sample_store
       = (Inr 0, set_data 0 (PInt 17) sample_store)"
    by (simp add: get_confirmed_def sample_service_def sample_reports_def column_sum_def
          wrap64_def)
  have s: "scheme sample_service = 0" "datetime sample_service = ''2020-03-14 10:00:00''"
    "timestamp sample_service = 1584180000"
    by (simp_all add: sample_service_def)
  have "dt (env_at (run reference_runtime sample_service
                      [GetConfirmed, GetCountry ''th'', GetTotal] sample_store)
                   (scheme sample_service)) = datetime sample_service
      \<and> ts (env_at (run reference_runtime sample_service
                      [GetConfirmed, GetCountry ''th'', GetTotal] sample_store)
                   (scheme sample_service)) = timestamp sample_service"
    using envelope_shared_stamps_kept [OF sample_init] by blast
  then show ?thesis
    using c sample_init by (simp only: s simp_thms)
qed

text \<open>
  C6: on a constructed service, after any sequence of calls, \<^verbatim>\<open>get_US_time_series(case)\<close>
  with a case other than \<^verbatim>\<open>confirmed\<close> and \<^verbatim>\<open>deaths\<close> does not raise: it returns the
  shared envelope, which then holds the empty list as \<open>data\<close> and the \<open>dt\<close> and \<open>ts\<close> of
  the construction.
\<close>

theorem get_US_time_series_unknown_case:
  assumes "init L d tser us lut h0 = (Inr svc, h1)"
    and "case_name \<notin> {''confirmed'', ''deaths''}"
  shows "fst (get_US_time_series L svc case_name (run L svc qs h1)) = Inr (scheme svc)
     \<and> returned (get_US_time_series L svc case_name (run L svc qs h1))
         = Inr \<lparr>data = PList [], dt = datetime svc, ts = timestamp svc\<rparr>"
proof -
  have "dt (env_at (run L svc qs h1) (scheme svc)) = datetime svc"
    and "ts (env_at (run L svc qs h1) (scheme svc)) = timestamp svc"
    using run_stamps [of L svc qs h1 "scheme svc"] init_Inr(3) [OF assms(1)] by simp_all
  then show ?thesis
    using assms(2) by (simp add: get_US_time_series_def returned_def set_data_def)
qed

theorem get_US_time_series_unknown_case_witness:
  "''recovered'' \<notin> {''confirmed'', ''deaths''}
   \<and> returned (get_US_time_series reference_runtime sample_service ''recovered''
        (run reference_runtime sample_service [GetTotal] sample_store))
       = Inr \<lparr>data = PList [], dt = ''2020-03-14 10:00:00'', ts = 1584180000\<rparr>"
proof -
  have n: "''recovered'' \<notin> {''confirmed'', ''deaths''}"
    by simp
  have s: "datetime sample_service = ''2020-03-14 10:00:00''"
    "timestamp sample_service = 1584180000"
    by (simp_all add: sample_service_def)
  show ?thesis
    using get_US_time_series_unknown_case [OF sample_init n, of "[GetTotal]"] n
    by (simp only: s simp_thms)
qed

text \<open>
  C5: \<^verbatim>\<open>get_time_series(case)\<close> with a case that is neither \<^verbatim>\<open>global\<close> nor a key of the
  global time-series tables raises, and leaves the envelope untouched.  The exception is
  Python's \<^verbatim>\<open>KeyError\<close> on the case, which the spec's taxonomy names \<^verbatim>\<open>UnknownCase\<close>.
\<close>

theorem get_time_series_unknown_case:
  assumes "case_name \<noteq> ''global''" and "map_of (df_time_series svc) case_name = None"
  shows "get_time_series L svc case_name h = (Inl (KeyError case_name), h)"
  using assms by (simp add: get_time_series_def dict_get_def bind_def)

theorem get_time_series_unknown_case_witness:
  "''doesnotexist'' \<noteq> ''global''
   \<and> map_of (df_time_series sample_service) ''doesnotexist'' = None
   \<and> get_time_series reference_runtime sample_service ''doesnotexist'' sample_store
       = (Inl (KeyError ''doesnotexist''), sample_store)"
proof -
  have 1: "''doesnotexist'' \<noteq> ''global''" by simp
  have 2: "map_of (df_time_series sample_service) ''doesnotexist'' = None"
    by (simp add: sample_service_def sample_time_series_def)
  show ?thesis
    using get_time_series_unknown_case [OF 1 2] 1 2 by simp
qed


section \<open>Properties of the sums\<close>

lemma wrap64_in_range:
  fixes i :: int
  shows "- (2 ^ 63) \<le> i \<Longrightarrow> i < 2 ^ 63 \<Longrightarrow> (i + 2 ^ 63) mod 2 ^ 64 - 2 ^ 63 = i"
  by simp

text \<open>
  C2, as the code has it: the four entries of the \<^verbatim>\<open>data\<close> of \<^verbatim>\<open>get_total()\<close> are, in this
  order, the \<^verbatim>\<open>data\<close> of \<^verbatim>\<open>get_confirmed()\<close>, \<^verbatim>\<open>get_deaths()\<close>, \<^verbatim>\<open>get_recovered()\<close> and
  \<^verbatim>\<open>get_active()\<close>, in whatever state the envelope is, and each is the sum of its column
  over all rows of the daily report, not over the per-country aggregate, taken in
  64 bits: the sum itself where it lies from \<open>- 2 ^ 63\<close> to \<open>2 ^ 63 - 1\<close>, and otherwise
  the sum wrapped around.
\<close>

theorem get_total_equals_column_sums:
  "\<exists>c d r a.
     c = (sum_list (map Confirmed (df svc)) + 2 ^ 63) mod 2 ^ 64 - 2 ^ 63
   \<and> d = (sum_list (map Deaths (df svc)) + 2 ^ 63) mod 2 ^ 64 - 2 ^ 63
   \<and> r = (sum_list (map Recovered (df svc)) + 2 ^ 63) mod 2 ^ 64 - 2 ^ 63
   \<and> a = (sum_list (map Active (df svc)) + 2 ^ 63) mod 2 ^ 64 - 2 ^ 63
   \<and> result_data (get_confirmed svc h1) = Inr (PInt c)
   \<and> result_data (get_deaths svc h2) = Inr (PInt d)
   \<and> result_data (get_recovered svc h3) = Inr (PInt r)
   \<and> result_data (get_active svc h4) = Inr (PInt a)
   \<and> result_data (get_total svc h5) =
       Inr (PDict [(''confirmed'', PInt c), (''deaths'', PInt d),
                   (''recovered'', PInt r), (''active'', PInt a)])
   \<and> (- (2 ^ 63) \<le> sum_list (map Confirmed (df svc))
        \<and> sum_list (map Confirmed (df svc)) < 2 ^ 63
      \<longrightarrow> c = sum_list (map Confirmed (df svc)))
   \<and> (- (2 ^ 63) \<le> sum_list (map Deaths (df svc))
        \<and> sum_list (map Deaths (df svc)) < 2 ^ 63
      \<longrightarrow> d = sum_list (map Deaths (df svc)))
   \<and> (- (2 ^ 63) \<le> sum_list (map Recovered (df svc))
        \<and> sum_list (map Recovered (df svc)) < 2 ^ 63
      \<longrightarrow> r = sum_list (map Recovered (df svc)))
   \<and> (- (2 ^ 63) \<le> sum_list (map Active (df svc))
        \<and> sum_list (map Active (df svc)) < 2 ^ 63
      \<longrightarrow> a = sum_list (map Active (df svc)))"
  using wrap64_in_range
  by (simp add: get_confirmed_def get_deaths_def get_recovered_def get_active_def get_total_def
        column_sum_def wrap64_def)

theorem get_total_equals_column_sums_witness:
  "result_data (get_confirmed sample_service sample_store) = Inr (PInt 17)
   \<and> result_data (get_deaths sample_service sample_store) = Inr (PInt 1)
   \<and> result_data (get_recovered sample_service sample_store) = Inr (PInt 3)
   \<and> result_data (get_active sample_service sample_store) = Inr (PInt 13)
   \<and> result_data (get_total sample_service sample_store) =
       Inr (PDict [(''confirmed'', PInt 17), (''deaths'', PInt 1),
                   (''recovered'', PInt 3), (''active'', PInt 13)])"
proof -
  have s: "sum_list (map Confirmed (df sample_service)) = 17"
    "sum_list (map Deaths (df sample_service)) = 1"
    "sum_list (map Recovered (df sample_service)) = 3"
    "sum_list (map Active (df sample_service)) = 13"
    by (simp_all add: sample_service_def sample_reports_def)
  show ?thesis
    using get_total_equals_column_sums [of sample_service sample_store sample_store
        sample_store sample_store sample_store]
    unfolding s by auto
qed

lemma overflow_max: "py_max (map Last_Update overflow_reports) = Inr ''2020-03-14 10:00:00''"
  by code_simp

lemma overflow_init:
  "init reference_runtime overflow_reports [] [] Map.empty empty_store
     = (Inr overflow_service, sample_store)"
  by (simp add: init_def overflow_max sample_strptime sample_utc bind_def reference_runtime_def
        alloc_def empty_store_def overflow_service_def sample_store_def)

text \<open>
  C2 as stated fails: two rows with \<open>2 ^ 62\<close> confirmed cases each add up to \<open>2 ^ 63\<close>,
  but \<^verbatim>\<open>get_confirmed()\<close> and \<^verbatim>\<open>get_total()\<close> return \<open>- 2 ^ 63\<close>.
\<close>

theorem get_confirmed_overflow_counterexample:
  "fst (init reference_runtime overflow_reports [] [] Map.empty empty_store)
     = Inr overflow_service
   \<and> map Confirmed (df overflow_service) = [4611686018427387904, 4611686018427387904]
   \<and> sum_list (map Confirmed (df overflow_service)) = 9223372036854775808
   \<and> result_data (get_confirmed overflow_service sample_store)
       = Inr (PInt (- 9223372036854775808))
   \<and> result_data (get_total overflow_service sample_store) =
       Inr (PDict [(''confirmed'', PInt (- 9223372036854775808)), (''deaths'', PInt 0),
                   (''recovered'', PInt 0), (''active'', PInt (- 9223372036854775808))])"
  by (simp add: overflow_init)
     (simp add: overflow_service_def overflow_reports_def get_confirmed_def get_total_def
        column_sum_def wrap64_def)

section \<open>Construction failures\<close>

lemma foldl_max_greatest:
  fixes x :: string
  shows "foldl (\<lambda>m y. if m < y then y else m) x r \<in> set (x # r)
     \<and> (\<forall>y \<in> set (x # r). y \<le> foldl (\<lambda>m y. if m < y then y else m) x r)"
proof (induction r arbitrary: x)
  case Nil
  show ?case by simp
next
  case (Cons a r)
  show ?case
  proof (cases "x < a")
    case True
    then show ?thesis using Cons [of a] by auto
  next
    case False
    then show ?thesis using Cons [of x] by auto
  qed
qed

lemma py_max_greatest:
  assumes "xs \<noteq> []"
  shows "\<exists>m. py_max xs = Inr m \<and> m \<in> set xs \<and> (\<forall>y \<in> set xs. y \<le> m)"
proof -
  obtain x r where xs: "xs = x # r"
    using assms by (cases xs) auto
  show ?thesis
    using foldl_max_greatest [of x r] by (simp add: xs py_max_def)
qed

lemma strptime_error: "strptime s = Inl e \<Longrightarrow> \<exists>msg. e = ValueError msg"
  by (auto simp: strptime_def Let_def split: list.splits prod.splits if_splits)

text \<open>
  C7, as the code has it: with no row the construction raises \<^verbatim>\<open>ValueError\<close> from
  \<^verbatim>\<open>max\<close> (the spec's \<^verbatim>\<open>EmptyDataset\<close>) and allocates nothing.  Otherwise only the
  greatest \<^verbatim>\<open>Last_Update\<close> string \<open>m\<close> of the report is parsed: if \<^verbatim>\<open>strptime\<close> rejects
  \<open>m\<close> the construction raises that \<^verbatim>\<open>ValueError\<close> (the spec's \<^verbatim>\<open>MalformedTimestamp\<close>),
  if \<^verbatim>\<open>timestamp()\<close> raises the construction raises with it, and else it succeeds with
  \<open>dt = m\<close> and \<open>ts\<close> the timestamp of \<open>m\<close>.
\<close>

theorem init_outcome:
  "(d = [] \<longrightarrow>
      init L d tser us lut h0 = (Inl (ValueError ''max() arg is an empty sequence''), h0))
   \<and> (d \<noteq> [] \<longrightarrow>
      (\<exists>m. py_max (map Last_Update d) = Inr m
         \<and> m \<in> Last_Update ` set d \<and> (\<forall>r \<in> set d. Last_Update r \<le> m)
         \<and> (\<forall>e. strptime m = Inl e \<longrightarrow>
               (\<exists>msg. e = ValueError msg) \<and> init L d tser us lut h0 = (Inl e, h0))
         \<and> (\<forall>t e. strptime m = Inr t \<and> mktime L t = Inl e \<longrightarrow>
               init L d tser us lut h0 = (Inl e, h0))
         \<and> (\<forall>t stamp. strptime m = Inr t \<and> mktime L t = Inr stamp \<longrightarrow>
               (\<exists>svc h1. init L d tser us lut h0 = (Inr svc, h1)
                  \<and> datetime svc = m \<and> timestamp svc = stamp
                  \<and> env_at h1 (scheme svc) = \<lparr>data = PNone, dt = m, ts = stamp\<rparr>))))"
proof (intro conjI impI)
  assume "d = []"
  then show "init L d tser us lut h0 = (Inl (ValueError ''max() arg is an empty sequence''), h0)"
    by (simp add: init_def py_max_def bind_def)
next
  assume "d \<noteq> []"
  then obtain m where m: "py_max (map Last_Update d) = Inr m" "m \<in> set (map Last_Update d)"
    "\<forall>y \<in> set (map Last_Update d). y \<le> m"
    using py_max_greatest [of "map Last_Update d"] by auto
  have 1: "\<forall>e. strptime m = Inl e \<longrightarrow>
               (\<exists>msg. e = ValueError msg) \<and> init L d tser us lut h0 = (Inl e, h0)"
    using strptime_error by (auto simp: init_def m(1) bind_def)
  have 2: "\<forall>t e. strptime m = Inr t \<and> mktime L t = Inl e \<longrightarrow>
               init L d tser us lut h0 = (Inl e, h0)"
    by (auto simp: init_def m(1) bind_def)
  have 3: "\<forall>t stamp. strptime m = Inr t \<and> mktime L t = Inr stamp \<longrightarrow>
               (\<exists>svc h1. init L d tser us lut h0 = (Inr svc, h1)
                  \<and> datetime svc = m \<and> timestamp svc = stamp
                  \<and> env_at h1 (scheme svc) = \<lparr>data = PNone, dt = m, ts = stamp\<rparr>)"
    by (auto simp: init_def m(1) bind_def alloc_def)
  show "\<exists>m. py_max (map Last_Update d) = Inr m
         \<and> m \<in> Last_Update ` set d \<and> (\<forall>r \<in> set d. Last_Update r \<le> m)
         \<and> (\<forall>e. strptime m = Inl e \<longrightarrow>
               (\<exists>msg. e = ValueError msg) \<and> init L d tser us lut h0 = (Inl e, h0))
         \<and> (\<forall>t e. strptime m = Inr t \<and> mktime L t = Inl e \<longrightarrow>
               init L d tser us lut h0 = (Inl e, h0))
         \<and> (\<forall>t stamp. strptime m = Inr t \<and> mktime L t = Inr stamp \<longrightarrow>
               (\<exists>svc h1. init L d tser us lut h0 = (Inr svc, h1)
                  \<and> datetime svc = m \<and> timestamp svc = stamp
                  \<and> env_at h1 (scheme svc) = \<lparr>data = PNone, dt = m, ts = stamp\<rparr>))"
    using m 1 2 3 by (intro exI [of _ m]) simp
qed

lemma sample_old_format:
  "strptime ''1/22/20 17:00'' = Inl (ValueError ''time data does not match format'')"
  by code_simp

text \<open>
  C7 as stated fails: the second row of the sample report carries a \<^verbatim>\<open>Last_Update\<close> that
  \<^verbatim>\<open>strptime\<close> rejects, yet the construction succeeds, because that string is not the
  greatest one.
\<close>

theorem init_malformed_row_counterexample:
  "Last_Update (sample_reports ! 1) = ''1/22/20 17:00''
   \<and> strptime ''1/22/20 17:00'' = Inl (ValueError ''time data does not match format'')
   \<and> fst (init reference_runtime sample_reports sample_time_series sample_US_time_series
             sample_lookup empty_store) = Inr sample_service
   \<and> dt (env_at sample_store (scheme sample_service)) = ''2020-03-14 10:00:00''
   \<and> ts (env_at sample_store (scheme sample_service)) = 1584180000"
  by (simp add: sample_init sample_old_format)
     (simp add: sample_reports_def sample_store_def sample_service_def alloc_def empty_store_def)


theorem init_outcome_witness:
  "init reference_runtime [] sample_time_series sample_US_time_series sample_lookup empty_store
     = (Inl (ValueError ''max() arg is an empty sequence''), empty_store)
   \<and> sample_reports \<noteq> []
   \<and> (\<exists>svc h1. init reference_runtime sample_reports sample_time_series sample_US_time_series
                    sample_lookup empty_store = (Inr svc, h1)
          \<and> datetime svc = ''2020-03-14 10:00:00'' \<and> timestamp svc = 1584180000)"
proof -
  have e: "init reference_runtime [] sample_time_series sample_US_time_series sample_lookup
             empty_store = (Inl (ValueError ''max() arg is an empty sequence''), empty_store)"
    using init_outcome [of "[]" reference_runtime sample_time_series sample_US_time_series
        sample_lookup empty_store]
    by simp
  have n: "sample_reports \<noteq> []"
    by (simp add: sample_reports_def)
  have k: "mktime reference_runtime
             \<lparr>year = 2020, month = 3, day = 14, hour = 10, minute = 0, second = 0\<rparr>
           = Inr 1584180000"
    using sample_utc by (simp add: reference_runtime_def)
  have "\<exists>svc h1. init reference_runtime sample_reports sample_time_series sample_US_time_series
                    sample_lookup empty_store = (Inr svc, h1)
          \<and> datetime svc = ''2020-03-14 10:00:00'' \<and> timestamp svc = 1584180000"
    using init_outcome [of sample_reports reference_runtime sample_time_series
        sample_US_time_series sample_lookup empty_store] n sample_max sample_strptime k
    by auto
  then show ?thesis
    using e n by blast
qed


section \<open>The records of the US time series\<close>

lemma dict_set_new: "k \<notin> fst ` set d \<Longrightarrow> dict_set d k v = d @ [(k, v)]"
  by (induction d) auto

lemma dict_set_keys:
  "map fst (dict_set d k v) = (if k \<in> fst ` set d then map fst d else map fst d @ [k])"
  by (induction d) force+

lemma foldl_dict_set_distinct:
  "distinct (map fst acc) \<Longrightarrow> distinct (map fst (foldl (\<lambda>d (k, v). dict_set d k v) acc kvs))"
proof (induction kvs arbitrary: acc)
  case Nil
  then show ?case by simp
next
  case (Cons kv kvs)
  obtain k v where kv: "kv = (k, v)" by (cases kv)
  have "distinct (map fst (dict_set acc k v))"
    using Cons.prems by (simp add: dict_set_keys)
  then show ?case
    using Cons.IH [of "dict_set acc k v"] by (simp add: kv)
qed

lemma dict_of_items_distinct: "distinct (map fst (dict_of_items kvs))"
  using foldl_dict_set_distinct [of "[]" kvs] by (simp add: dict_of_items_def)

lemma foldl_dict_set_fresh:
  "distinct (map fst kvs) \<Longrightarrow> fst ` set acc \<inter> fst ` set kvs = {} \<Longrightarrow>
   foldl (\<lambda>d (k, v). dict_set d k v) acc kvs = acc @ kvs"
proof (induction kvs arbitrary: acc)
  case Nil
  then show ?case by simp
next
  case (Cons kv kvs)
  obtain k v where kv: "kv = (k, v)" by (cases kv)
  have 1: "dict_set acc k v = acc @ [(k, v)]"
    using Cons.prems(2) by (intro dict_set_new) (auto simp: kv)
  have "foldl (\<lambda>d (k, v). dict_set d k v) (acc @ [(k, v)]) kvs = (acc @ [(k, v)]) @ kvs"
    using Cons.prems by (intro Cons.IH) (auto simp: kv)
  then show ?case by (simp add: kv 1)
qed

lemma dict_of_items_id: "distinct (map fst kvs) \<Longrightarrow> dict_of_items kvs = kvs"
  using foldl_dict_set_fresh [of kvs "[]"] by (simp add: dict_of_items_def)

lemma mapM_Inr: "mapM f xs = Inr ys \<Longrightarrow> list_all2 (\<lambda>x y. f x = Inr y) xs ys"
proof (induction xs arbitrary: ys)
  case Nil
  then show ?case by simp
next
  case (Cons x xs)
  then show ?case
    by (auto simp: bind_def split: sum.splits)
qed


lemma T_to_dict_distinct: "d \<in> set (T_to_dict t) \<Longrightarrow> distinct (map fst d)"
  by (auto simp: T_to_dict_def dict_of_items_distinct)

lemma T_to_dict_zip:
  assumes "distinct (columns t)" and "i < length (rows t)"
  shows "T_to_dict t ! i = zip (columns t) (rows t ! i)"
proof -
  have "map fst (zip (columns t) (rows t ! i)) = take (length (rows t ! i)) (columns t)"
    by (simp add: map_fst_zip_take min_def take_all)
  then have "distinct (map fst (zip (columns t) (rows t ! i)))"
    using assms(1) by (simp only: distinct_take)
  then show ?thesis
    using assms(2) by (simp add: T_to_dict_def dict_of_items_id)
qed

lemma py_int_cell:
  assumes "py_int L v = Inr n"
  shows "case v of
           PInt m \<Rightarrow> n = m
         | PFloat (Finite q) \<Rightarrow> n = (if 0 \<le> q then \<lfloor>q\<rfloor> else \<lceil>q\<rceil>)
         | PStr s \<Rightarrow> int_of_str L s = Some n
         | _ \<Rightarrow> False"
  using assms
  by (auto simp: py_int_def truncate_def split: pyval.splits pyfloat.splits option.splits)

lemma time_series_of_Inr:
  assumes "time_series_of L ex d = Inr tsr" and "distinct (map fst d)"
  shows "\<exists>kvs. tsr = PList (map (\<lambda>(k, n). PDict [(''date'', PStr k), (''value'', PInt n)]) kvs)
     \<and> list_all2 (\<lambda>(k, n) (k', v). k = k' \<and>
            (case v of
               PInt m \<Rightarrow> n = m
             | PFloat (Finite q) \<Rightarrow> n = (if 0 \<le> q then \<lfloor>q\<rfloor> else \<lceil>q\<rceil>)
             | PStr s \<Rightarrow> int_of_str L s = Some n
             | _ \<Rightarrow> False)) kvs
          (filter (\<lambda>(k, v). k \<notin> set ex) d)"
proof -
  let ?items = "filter (\<lambda>(k, v). k \<notin> set ex) d"
  obtain kvs where m: "mapM (\<lambda>(k, v). bind (py_int L v) (\<lambda>i. Inr (k, i))) ?items = Inr kvs"
    and tsr: "tsr = PList (map time_series_entry (dict_of_items kvs))"
    using assms(1) by (auto simp: time_series_of_def bind_def split: sum.splits)
  have "list_all2 (\<lambda>x y. (case x of (k, v) \<Rightarrow> bind (py_int L v) (\<lambda>i. Inr (k, i))) = Inr y)
          ?items kvs"
    using mapM_Inr [OF m] .
  then have a: "list_all2 (\<lambda>(k', v) (k, n). k = k' \<and> py_int L v = Inr n) ?items kvs"
    by (rule list_all2_mono) (auto simp: bind_def split: sum.splits)
  then have "map fst kvs = map fst ?items"
    by (induction rule: list_all2_induct) auto
  moreover have "distinct (map fst ?items)"
    using assms(2) by (simp add: distinct_map_filter)
  ultimately have id: "dict_of_items kvs = kvs"
    by (simp add: dict_of_items_id)
  have "list_all2 (\<lambda>(k, n) (k', v). k = k' \<and> py_int L v = Inr n) kvs ?items"
    using a by (subst list_all2_conv_all_nth) (auto simp: list_all2_conv_all_nth split: prod.splits)
  then have cells: "list_all2 (\<lambda>(k, n) (k', v). k = k' \<and>
            (case v of
               PInt m \<Rightarrow> n = m
             | PFloat (Finite q) \<Rightarrow> n = (if 0 \<le> q then \<lfloor>q\<rfloor> else \<lceil>q\<rceil>)
             | PStr s \<Rightarrow> int_of_str L s = Some n
             | _ \<Rightarrow> False)) kvs ?items"
  proof (rule list_all2_mono)
    fix x :: "string \<times> int" and y :: "string \<times> pyval"
    assume "(case x of (k, n) \<Rightarrow> \<lambda>(k', v). k = k' \<and> py_int L v = Inr n) y"
    then have "fst x = fst y" and "py_int L (snd y) = Inr (snd x)"
      by (simp_all add: case_prod_beta)
    then show "(case x of (k, n) \<Rightarrow> \<lambda>(k', v). k = k' \<and>
            (case v of
               PInt m \<Rightarrow> n = m
             | PFloat (Finite q) \<Rightarrow> n = (if 0 \<le> q then \<lfloor>q\<rfloor> else \<lceil>q\<rceil>)
             | PStr s \<Rightarrow> int_of_str L s = Some n
             | _ \<Rightarrow> False)) y"
      using py_int_cell [of L "snd y" "snd x"] by (simp add: case_prod_beta)
  qed
  have "map time_series_entry kvs
      = map (\<lambda>(k, n). PDict [(''date'', PStr k), (''value'', PInt n)]) kvs"
    by (simp add: time_series_entry_def case_prod_beta)
  then have "tsr = PList (map (\<lambda>(k, n). PDict [(''date'', PStr k), (''value'', PInt n)]) kvs)"
    using tsr id by simp
  then show ?thesis
    using cells by (intro exI [of _ kvs] conjI)
qed

lemma py_float_cell:
  assumes "py_float L v = Inr x"
  shows "case v of
           PFloat f \<Rightarrow> x = f
         | PInt m \<Rightarrow> x = round_double (of_int m)
         | PStr s \<Rightarrow> float_of_str L s = Some x
         | _ \<Rightarrow> False"
  using assms by (auto simp: py_float_def split: pyval.splits pyfloat.splits option.splits)

lemma coordinates_of_Inr:
  assumes "coordinates_of L d lat long = Inr co"
  shows "\<exists>vla vlo la lo. co = PDict [(''Lat'', PFloat la), (''Long'', PFloat lo)]
     \<and> map_of d lat = Some vla \<and> map_of d long = Some vlo
     \<and> (case vla of
           PFloat f \<Rightarrow> la = f
         | PInt m \<Rightarrow> la = round_double (of_int m)
         | PStr s \<Rightarrow> float_of_str L s = Some la
         | _ \<Rightarrow> False)
     \<and> (case vlo of
           PFloat f \<Rightarrow> lo = f
         | PInt m \<Rightarrow> lo = round_double (of_int m)
         | PStr s \<Rightarrow> float_of_str L s = Some lo
         | _ \<Rightarrow> False)"
proof -
  obtain vla vlo la lo where "map_of d lat = Some vla" and "map_of d long = Some vlo"
    and "py_float L vla = Inr la" and "py_float L vlo = Inr lo"
    and "co = PDict [(''Lat'', PFloat la), (''Long'', PFloat lo)]"
    using assms
    by (auto simp: coordinates_of_def dict_get_def bind_def split: sum.splits option.splits)
  then show ?thesis
    using py_float_cell [of L vla la] py_float_cell [of L vlo lo] by blast
qed

lemma US_info_Inr:
  assumes "US_info d = Inr info"
  shows "\<exists>uid i2 i3 c3 fips adm.
     info = PDict [(''UID'', uid), (''iso2'', i2), (''iso3'', i3), (''code3'', c3),
                   (''FIPS'', fips), (''Admin2'', adm)]
     \<and> map_of d ''UID'' = Some uid \<and> map_of d ''iso2'' = Some i2
     \<and> map_of d ''iso3'' = Some i3 \<and> map_of d ''code3'' = Some c3
     \<and> map_of d ''FIPS'' = Some fips \<and> map_of d ''Admin2'' = Some adm"
  using assms
  by (auto simp: US_info_def dict_get_def bind_def split: sum.splits option.splits)

lemma US_excluded_cols_set:
  "set US_excluded_cols =
     {''UID'', ''iso2'', ''iso3'', ''code3'', ''FIPS'', ''Admin2'', ''Province_State'',
      ''Country_Region'', ''Lat'', ''Long_'', ''Combined_Key'', ''Population''}"
  unfolding US_excluded_cols_def by (simp only: list.set)

lemma extract_US_time_series_row_Inr:
  assumes "extract_US_time_series_row L d = Inr rec" and "distinct (map fst d)"
  shows "\<exists>ps cr uid i2 i3 c3 fips adm vla vlo la lo kvs.
     rec = PDict [(''Province_State'', ps), (''Country_Region'', cr),
                  (''Info'', PDict [(''UID'', uid), (''iso2'', i2), (''iso3'', i3),
                                    (''code3'', c3), (''FIPS'', fips), (''Admin2'', adm)]),
                  (''Coordinates'', PDict [(''Lat'', PFloat la), (''Long'', PFloat lo)]),
                  (''TimeSeries'',
                   PList (map (\<lambda>(k, n). PDict [(''date'', PStr k), (''value'', PInt n)]) kvs))]
     \<and> map_of d ''Province_State'' = Some ps \<and> map_of d ''Country_Region'' = Some cr
     \<and> map_of d ''UID'' = Some uid \<and> map_of d ''iso2'' = Some i2
     \<and> map_of d ''iso3'' = Some i3 \<and> map_of d ''code3'' = Some c3
     \<and> map_of d ''FIPS'' = Some fips \<and> map_of d ''Admin2'' = Some adm
     \<and> map_of d ''Lat'' = Some vla \<and> map_of d ''Long_'' = Some vlo
     \<and> (case vla of
           PFloat f \<Rightarrow> la = f
         | PInt m \<Rightarrow> la = round_double (of_int m)
         | PStr s \<Rightarrow> float_of_str L s = Some la
         | _ \<Rightarrow> False)
     \<and> (case vlo of
           PFloat f \<Rightarrow> lo = f
         | PInt m \<Rightarrow> lo = round_double (of_int m)
         | PStr s \<Rightarrow> float_of_str L s = Some lo
         | _ \<Rightarrow> False)
     \<and> list_all2 (\<lambda>(k, n) (k', v). k = k' \<and>
            (case v of
               PInt m \<Rightarrow> n = m
             | PFloat (Finite q) \<Rightarrow> n = (if 0 \<le> q then \<lfloor>q\<rfloor> else \<lceil>q\<rceil>)
             | PStr s \<Rightarrow> int_of_str L s = Some n
             | _ \<Rightarrow> False)) kvs
          (filter (\<lambda>(k, v). k \<notin> set US_excluded_cols) d)"
proof -
  obtain ps cr info co tsr where
    ps: "map_of d ''Province_State'' = Some ps" and cr: "map_of d ''Country_Region'' = Some cr"
    and info: "US_info d = Inr info" and co: "coordinates_of L d ''Lat'' ''Long_'' = Inr co"
    and tsr: "time_series_of L US_excluded_cols d = Inr tsr"
    and rec: "rec = PDict (dict_of_items [(''Province_State'', ps), (''Country_Region'', cr),
                 (''Info'', info), (''Coordinates'', co), (''TimeSeries'', tsr)])"
    using assms(1)
    by (auto simp: extract_US_time_series_row_def bind_def dict_get_def
          split: sum.splits option.splits)
  have "dict_of_items [(''Province_State'', ps), (''Country_Region'', cr),
                 (''Info'', info), (''Coordinates'', co), (''TimeSeries'', tsr)]
       = [(''Province_State'', ps), (''Country_Region'', cr),
                 (''Info'', info), (''Coordinates'', co), (''TimeSeries'', tsr)]"
    by (simp add: dict_of_items_def)
  then have rec': "rec = PDict [(''Province_State'', ps), (''Country_Region'', cr),
                 (''Info'', info), (''Coordinates'', co), (''TimeSeries'', tsr)]"
    using rec by simp
  show ?thesis
    using US_info_Inr [OF info] coordinates_of_Inr [OF co] time_series_of_Inr [OF tsr assms(2)]
      ps cr
    unfolding rec' by blast
qed

lemma filter_keys: "map fst (filter (\<lambda>(k, v). P k) d) = filter P (map fst d)"
  by (induction d) auto

lemma list_all2_keys:
  "list_all2 (\<lambda>(k, n) (k', v). k = k' \<and> P v n) xs ys \<Longrightarrow> map fst xs = map fst ys"
  by (induction rule: list_all2_induct) auto

lemma list_all2_mapM_nth:
  "mapM f xs = Inr ys \<Longrightarrow> length ys = length xs \<and> (\<forall>i < length ys. f (xs ! i) = Inr (ys ! i))"
  using mapM_Inr [of f xs ys] by (auto simp: list_all2_conv_all_nth)

text \<open>
  C10: let \<^verbatim>\<open>get_US_time_series(case)\<close> return for \<^verbatim>\<open>confirmed\<close> or \<^verbatim>\<open>deaths\<close>, on a
  table \<open>t\<close> with distinct column labels.  Its \<open>data\<close> then holds one record per row of \<open>t\<close>,
  and the record of row \<open>i\<close> has exactly the keys \<^verbatim>\<open>Province_State\<close>, \<^verbatim>\<open>Country_Region\<close>,
  \<^verbatim>\<open>Info\<close>, \<^verbatim>\<open>Coordinates\<close> and \<^verbatim>\<open>TimeSeries\<close>: the first two and the six entries of
  \<^verbatim>\<open>Info\<close> are the cells of the row in the columns of these names, \<^verbatim>\<open>Coordinates\<close> holds
  under \<^verbatim>\<open>Lat\<close> and \<^verbatim>\<open>Long\<close> the floats of the cells \<^verbatim>\<open>Lat\<close> and \<^verbatim>\<open>Long_\<close> (the cell itself
  if it is a float, the nearest double if it is an integer, \<^verbatim>\<open>float\<close> of a string), and \<^verbatim>\<open>TimeSeries\<close> is the
  list of the objects \<^verbatim>\<open>{'date': k, 'value': n}\<close>, one for each cell of the row whose
  column \<open>k\<close> is not among the twelve excluded ones, in column order, with \<open>n\<close> the
  integer in the cell, the cell's float truncated towards zero, or \<^verbatim>\<open>int\<close> of the
  cell's string.  So neither \<^verbatim>\<open>Combined_Key\<close> nor \<^verbatim>\<open>Population\<close> occurs in the record.
\<close>

theorem US_time_series_record_shape:
  assumes "case_name \<in> {''confirmed'', ''deaths''}"
    and "map_of (df_US_time_series svc) case_name = Some t"
    and "distinct (columns t)"
    and "get_US_time_series L svc case_name h = (Inr r, h')"
  shows "\<exists>recs. data (env_at h' r) = PList recs \<and> length recs = length (rows t)
     \<and> (\<forall>i < length recs. \<exists>ps cr uid i2 i3 c3 fips adm vla vlo la lo kvs.
           recs ! i =
             PDict [(''Province_State'', ps), (''Country_Region'', cr),
                    (''Info'', PDict [(''UID'', uid), (''iso2'', i2), (''iso3'', i3),
                                      (''code3'', c3), (''FIPS'', fips), (''Admin2'', adm)]),
                    (''Coordinates'', PDict [(''Lat'', PFloat la), (''Long'', PFloat lo)]),
                    (''TimeSeries'',
                     PList (map (\<lambda>(k, n). PDict [(''date'', PStr k), (''value'', PInt n)])
                                kvs))]
           \<and> map_of (zip (columns t) (rows t ! i)) ''Province_State'' = Some ps
           \<and> map_of (zip (columns t) (rows t ! i)) ''Country_Region'' = Some cr
           \<and> map_of (zip (columns t) (rows t ! i)) ''UID'' = Some uid
           \<and> map_of (zip (columns t) (rows t ! i)) ''iso2'' = Some i2
           \<and> map_of (zip (columns t) (rows t ! i)) ''iso3'' = Some i3
           \<and> map_of (zip (columns t) (rows t ! i)) ''code3'' = Some c3
           \<and> map_of (zip (columns t) (rows t ! i)) ''FIPS'' = Some fips
           \<and> map_of (zip (columns t) (rows t ! i)) ''Admin2'' = Some adm
           \<and> map_of (zip (columns t) (rows t ! i)) ''Lat'' = Some vla \<and> map_of (zip (columns t) (rows t ! i)) ''Long_'' = Some vlo
           \<and> (case vla of
                 PFloat f \<Rightarrow> la = f
               | PInt m \<Rightarrow> la = round_double (of_int m)
               | PStr s \<Rightarrow> float_of_str L s = Some la
               | _ \<Rightarrow> False)
           \<and> (case vlo of
                 PFloat f \<Rightarrow> lo = f
               | PInt m \<Rightarrow> lo = round_double (of_int m)
               | PStr s \<Rightarrow> float_of_str L s = Some lo
               | _ \<Rightarrow> False)
           \<and> list_all2 (\<lambda>(k, n) (k', v). k = k' \<and>
                  (case v of
                     PInt m \<Rightarrow> n = m
                   | PFloat (Finite q) \<Rightarrow> n = (if 0 \<le> q then \<lfloor>q\<rfloor> else \<lceil>q\<rceil>)
                   | PStr s \<Rightarrow> int_of_str L s = Some n
                   | _ \<Rightarrow> False)) kvs
                (filter (\<lambda>(k, v). k \<notin>
                     {''UID'', ''iso2'', ''iso3'', ''code3'', ''FIPS'', ''Admin2'',
                      ''Province_State'', ''Country_Region'', ''Lat'', ''Long_'',
                      ''Combined_Key'', ''Population''})
                   (zip (columns t) (rows t ! i)))
           \<and> ''Combined_Key'' \<notin> fst ` set kvs \<and> ''Population'' \<notin> fst ` set kvs)"
proof -
  have c: "\<not> case_name \<notin> set [''confirmed'', ''deaths'']"
    using assms(1) by simp
  have out: "(case bind (dict_get (df_US_time_series svc) case_name)
                (\<lambda>t. extract_US_time_series L (T_to_dict t)) of
          Inl e \<Rightarrow> (Inl e, h)
        | Inr d \<Rightarrow> (Inr (scheme svc), set_data (scheme svc) (PList d) h)) = (Inr r, h')"
    using assms(4) unfolding get_US_time_series_def by (simp only: c if_False)
  obtain recs where m: "mapM (extract_US_time_series_row L) (T_to_dict t) = Inr recs"
    using out assms(2) by (cases "mapM (extract_US_time_series_row L) (T_to_dict t)")
      (simp_all add: dict_get_def bind_def extract_US_time_series_def)
  have h': "h' = set_data (scheme svc) (PList recs) h" and r: "r = scheme svc"
    using out assms(2) m by (auto simp: dict_get_def bind_def extract_US_time_series_def)
  have len: "length recs = length (rows t)"
    using list_all2_mapM_nth [OF m] by (simp add: T_to_dict_def)
  have row: "\<forall>i < length recs. extract_US_time_series_row L (T_to_dict t ! i) = Inr (recs ! i)"
    using list_all2_mapM_nth [OF m] by simp
  have data: "data (env_at h' r) = PList recs"
    by (simp add: h' r set_data_def)
  have rows_ok: "\<exists>ps cr uid i2 i3 c3 fips adm vla vlo la lo kvs.
           recs ! i =
             PDict [(''Province_State'', ps), (''Country_Region'', cr),
                    (''Info'', PDict [(''UID'', uid), (''iso2'', i2), (''iso3'', i3),
                                      (''code3'', c3), (''FIPS'', fips), (''Admin2'', adm)]),
                    (''Coordinates'', PDict [(''Lat'', PFloat la), (''Long'', PFloat lo)]),
                    (''TimeSeries'',
                     PList (map (\<lambda>(k, n). PDict [(''date'', PStr k), (''value'', PInt n)])
                                kvs))]
           \<and> map_of (zip (columns t) (rows t ! i)) ''Province_State'' = Some ps
           \<and> map_of (zip (columns t) (rows t ! i)) ''Country_Region'' = Some cr
           \<and> map_of (zip (columns t) (rows t ! i)) ''UID'' = Some uid
           \<and> map_of (zip (columns t) (rows t ! i)) ''iso2'' = Some i2
           \<and> map_of (zip (columns t) (rows t ! i)) ''iso3'' = Some i3
           \<and> map_of (zip (columns t) (rows t ! i)) ''code3'' = Some c3
           \<and> map_of (zip (columns t) (rows t ! i)) ''FIPS'' = Some fips
           \<and> map_of (zip (columns t) (rows t ! i)) ''Admin2'' = Some adm
           \<and> map_of (zip (columns t) (rows t ! i)) ''Lat'' = Some vla \<and> map_of (zip (columns t) (rows t ! i)) ''Long_'' = Some vlo
           \<and> (case vla of
                 PFloat f \<Rightarrow> la = f
               | PInt m \<Rightarrow> la = round_double (of_int m)
               | PStr s \<Rightarrow> float_of_str L s = Some la
               | _ \<Rightarrow> False)
           \<and> (case vlo of
                 PFloat f \<Rightarrow> lo = f
               | PInt m \<Rightarrow> lo = round_double (of_int m)
               | PStr s \<Rightarrow> float_of_str L s = Some lo
               | _ \<Rightarrow> False)
           \<and> list_all2 (\<lambda>(k, n) (k', v). k = k' \<and>
                  (case v of
                     PInt m \<Rightarrow> n = m
                   | PFloat (Finite q) \<Rightarrow> n = (if 0 \<le> q then \<lfloor>q\<rfloor> else \<lceil>q\<rceil>)
                   | PStr s \<Rightarrow> int_of_str L s = Some n
                   | _ \<Rightarrow> False)) kvs
                (filter (\<lambda>(k, v). k \<notin>
                     {''UID'', ''iso2'', ''iso3'', ''code3'', ''FIPS'', ''Admin2'',
                      ''Province_State'', ''Country_Region'', ''Lat'', ''Long_'',
                      ''Combined_Key'', ''Population''})
                   (zip (columns t) (rows t ! i)))
           \<and> ''Combined_Key'' \<notin> fst ` set kvs \<and> ''Population'' \<notin> fst ` set kvs"
    if i: "i < length recs" for i
  proof -
    let ?d = "zip (columns t) (rows t ! i)"
    have d: "T_to_dict t ! i = ?d"
      using T_to_dict_zip [OF assms(3)] i len by simp
    have "T_to_dict t ! i \<in> set (T_to_dict t)"
      using i len by (simp add: T_to_dict_def)
    then have dist: "distinct (map fst ?d)"
      using T_to_dict_distinct [of "T_to_dict t ! i" t] d by simp
    have ex: "extract_US_time_series_row L ?d = Inr (recs ! i)"
      using row i d by auto
    obtain ps cr uid i2 i3 c3 fips adm vla vlo la lo kvs where
      rec: "recs ! i =
             PDict [(''Province_State'', ps), (''Country_Region'', cr),
                    (''Info'', PDict [(''UID'', uid), (''iso2'', i2), (''iso3'', i3),
                                      (''code3'', c3), (''FIPS'', fips), (''Admin2'', adm)]),
                    (''Coordinates'', PDict [(''Lat'', PFloat la), (''Long'', PFloat lo)]),
                    (''TimeSeries'',
                     PList (map (\<lambda>(k, n). PDict [(''date'', PStr k), (''value'', PInt n)])
                                kvs))]"
      and cells: "map_of ?d ''Province_State'' = Some ps" "map_of ?d ''Country_Region'' = Some cr"
        "map_of ?d ''UID'' = Some uid" "map_of ?d ''iso2'' = Some i2"
        "map_of ?d ''iso3'' = Some i3" "map_of ?d ''code3'' = Some c3"
        "map_of ?d ''FIPS'' = Some fips" "map_of ?d ''Admin2'' = Some adm"
      and coords: "map_of ?d ''Lat'' = Some vla" "map_of ?d ''Long_'' = Some vlo"
        "case vla of
           PFloat f \<Rightarrow> la = f
         | PInt m \<Rightarrow> la = round_double (of_int m)
         | PStr s \<Rightarrow> float_of_str L s = Some la
         | _ \<Rightarrow> False"
        "case vlo of
           PFloat f \<Rightarrow> lo = f
         | PInt m \<Rightarrow> lo = round_double (of_int m)
         | PStr s \<Rightarrow> float_of_str L s = Some lo
         | _ \<Rightarrow> False"
      and all2: "list_all2 (\<lambda>(k, n) (k', v). k = k' \<and>
                  (case v of
                     PInt m \<Rightarrow> n = m
                   | PFloat (Finite q) \<Rightarrow> n = (if 0 \<le> q then \<lfloor>q\<rfloor> else \<lceil>q\<rceil>)
                   | PStr s \<Rightarrow> int_of_str L s = Some n
                   | _ \<Rightarrow> False)) kvs
                (filter (\<lambda>(k, v). k \<notin> set US_excluded_cols) ?d)"
      using extract_US_time_series_row_Inr [OF ex dist] by blast
    have "map fst (filter (\<lambda>(k, v). k \<notin> set US_excluded_cols) ?d)
            = filter (\<lambda>k. k \<notin> set US_excluded_cols) (map fst ?d)"
      by (rule filter_keys)
    then have keys: "map fst kvs = filter (\<lambda>k. k \<notin> set US_excluded_cols) (map fst ?d)"
      using list_all2_keys [OF all2] by simp
    have disj: "k \<notin> set US_excluded_cols" if "k \<in> fst ` set kvs" for k
      using arg_cong [OF keys, of set] that by auto
    have "''Combined_Key'' \<in> set US_excluded_cols" and "''Population'' \<in> set US_excluded_cols"
      by (simp_all add: US_excluded_cols_def)
    then have no: "''Combined_Key'' \<notin> fst ` set kvs" "''Population'' \<notin> fst ` set kvs"
      using disj [of "''Combined_Key''"] disj [of "''Population''"] by blast+
    show ?thesis
      using rec cells coords all2 [unfolded US_excluded_cols_set] no
      by (intro exI conjI) assumption+
  qed
  show ?thesis
    by (intro exI [of _ recs] conjI allI impI) (rule data, rule len, rule rows_ok)
qed

lemma sample_US_deaths:
  "result_data (get_US_time_series reference_runtime sample_service ''deaths'' sample_store) =
     Inr (PList
       [PDict [(''Province_State'', PStr ''Alabama''), (''Country_Region'', PStr ''US''),
          (''Info'', PDict [(''UID'', PInt 84001001), (''iso2'', PStr ''US''),
             (''iso3'', PStr ''USA''), (''code3'', PInt 840), (''FIPS'', PFloat (Finite 1001)),
             (''Admin2'', PStr ''Autauga'')]),
          (''Coordinates'', PDict [(''Lat'', PFloat (Finite (65 / 2))),
             (''Long'', PFloat (Finite (- 173 / 2)))]),
          (''TimeSeries'', PList [PDict [(''date'', PStr ''1/22/20''), (''value'', PInt 0)],
             PDict [(''date'', PStr ''1/23/20''), (''value'', PInt 0)]])]])"
  by code_simp

lemma sample_US_confirmed:
  "result_data (get_US_time_series reference_runtime sample_service ''confirmed'' sample_store) =
     Inr (PList
       [PDict [(''Province_State'', PStr ''Alabama''), (''Country_Region'', PStr ''US''),
          (''Info'', PDict [(''UID'', PInt 84001001), (''iso2'', PStr ''US''),
             (''iso3'', PStr ''USA''), (''code3'', PInt 840), (''FIPS'', PFloat (Finite 1001)),
             (''Admin2'', PStr ''Autauga'')]),
          (''Coordinates'', PDict [(''Lat'', PFloat (Finite (65 / 2))),
             (''Long'', PFloat (Finite (- 173 / 2)))]),
          (''TimeSeries'', PList [PDict [(''date'', PStr ''1/22/20''), (''value'', PInt 0)],
             PDict [(''date'', PStr ''1/23/20''), (''value'', PInt 1)]])]])"
  by code_simp

lemma sample_US_deaths_ref:
  "fst (get_US_time_series reference_runtime sample_service ''deaths'' sample_store) = Inr 0"
  by code_simp

theorem US_time_series_record_shape_witness:
  "''deaths'' \<in> {''confirmed'', ''deaths''}
   \<and> map_of (df_US_time_series sample_service) ''deaths'' = Some sample_US_deaths_table
   \<and> distinct (columns sample_US_deaths_table)
   \<and> fst (get_US_time_series reference_runtime sample_service ''deaths'' sample_store) = Inr 0
   \<and> (\<exists>recs. data (env_at (snd (get_US_time_series reference_runtime sample_service ''deaths''
                                   sample_store)) 0) = PList recs
         \<and> length recs = length (rows sample_US_deaths_table))"
proof -
  have c: "''deaths'' \<in> {''confirmed'', ''deaths''}"
    by simp
  have t: "map_of (df_US_time_series sample_service) ''deaths'' = Some sample_US_deaths_table"
    by (simp add: sample_service_def sample_US_time_series_def sample_US_deaths_table_def)
  have d: "distinct (columns sample_US_deaths_table)"
    by (simp add: sample_US_deaths_table_def)
  have out: "get_US_time_series reference_runtime sample_service ''deaths'' sample_store
     = (Inr 0, snd (get_US_time_series reference_runtime sample_service ''deaths'' sample_store))"
    using sample_US_deaths_ref by (simp add: prod_eq_iff)
  show ?thesis
    using US_time_series_record_shape [OF c t d out] c t d sample_US_deaths_ref by blast
qed

section \<open>The global totals per date\<close>

lemma mapM_all2: "list_all2 (\<lambda>x y. f x = Inr y) xs ys \<Longrightarrow> mapM f xs = Inr ys"
  by (induction rule: list_all2_induct) (auto simp: bind_def)

lemma mapM_map: "(\<And>x. x \<in> set xs \<Longrightarrow> f x = Inr (g x)) \<Longrightarrow> mapM f xs = Inr (map g xs)"
  by (induction xs) (auto simp: bind_def)

lemma union_seen:
  "set xs \<subseteq> set seen \<Longrightarrow>
   foldl (\<lambda>seen l. if l \<in> set seen then seen else seen @ [l]) seen xs = seen"
  by (induction xs) auto

lemma union_fresh:
  "distinct (seen @ xs) \<Longrightarrow>
   foldl (\<lambda>seen l. if l \<in> set seen then seen else seen @ [l]) seen xs = seen @ xs"
proof (induction xs arbitrary: seen)
  case Nil
  show ?case by simp
next
  case (Cons x xs)
  have "foldl (\<lambda>seen l. if l \<in> set seen then seen else seen @ [l]) (seen @ [x]) xs
          = (seen @ [x]) @ xs"
    using Cons.prems by (intro Cons.IH) auto
  then show ?case
    using Cons.prems by simp
qed

lemma union_index_same:
  assumes "ixs \<noteq> []" and "\<forall>ix \<in> set ixs. ix = ds" and "distinct ds"
  shows "union_index ixs = ds"
proof -
  obtain rest where ixs: "ixs = ds # rest" and rest: "\<forall>ix \<in> set rest. ix = ds"
    using assms(1,2) by (cases ixs) auto
  have "set (concat rest) \<subseteq> set ds"
    using rest by auto
  then show ?thesis
    using union_fresh [of "[]" ds] union_seen [of "concat rest" ds] assms(3)
    by (simp add: union_index_def ixs)
qed

lemma wrap32_id: "- (2 ^ 31) \<le> n \<Longrightarrow> n < 2 ^ 31 \<Longrightarrow> wrap32 n = n"
  by (simp add: wrap32_def)

lemma map_of_indexed:
  "distinct ds \<Longrightarrow> i < length ds \<Longrightarrow>
   map_of (map (\<lambda>i. (ds ! i, f i)) [0..<length ds]) (ds ! i) = Some (f i)"
proof -
  assume d: "distinct ds" and i: "i < length ds"
  have "distinct (map fst (map (\<lambda>i. (ds ! i, f i)) [0..<length ds]))"
    using d by (simp add: comp_def map_nth)
  moreover have "(ds ! i, f i) \<in> set (map (\<lambda>i. (ds ! i, f i)) [0..<length ds])"
    using i by auto
  ultimately show ?thesis
    by (rule map_of_is_SomeI)
qed


lemma column_cells:
  assumes "map (drop 4) rs = map (map PInt) cs" and "\<forall>r \<in> set cs. length r = n" and "i < n"
  shows "mapM (\<lambda>row. astype_int32 L (row ! (4 + i))) rs = Inr (map (\<lambda>r. wrap32 (r ! i)) cs)"
proof (rule mapM_all2, subst list_all2_conv_all_nth, intro conjI allI impI)
  have len: "length rs = length cs"
    using arg_cong [OF assms(1), of length] by simp
  show "length rs = length (map (\<lambda>r. wrap32 (r ! i)) cs)"
    using len by simp
  fix k
  assume k: "k < length rs"
  have d: "drop 4 (rs ! k) = map PInt (cs ! k)"
    using arg_cong [OF assms(1), of "\<lambda>xs. xs ! k"] k len by simp
  have "length (cs ! k) = n"
    using assms(2) k len by simp
  then have "i < length (drop 4 (rs ! k))"
    using d assms(3) by simp
  then have "rs ! k ! (4 + i) = drop 4 (rs ! k) ! i"
    by simp
  also have "\<dots> = PInt (cs ! k ! i)"
    using d \<open>length (cs ! k) = n\<close> assms(3) by simp
  finally show "astype_int32 L (rs ! k ! (4 + i)) = Inr (map (\<lambda>r. wrap32 (r ! i)) cs ! k)"
    using k len by (simp add: astype_int32_def)
qed

lemma column_sums_ints:
  assumes "drop 4 (columns t) = dates" and "map (drop 4) (rows t) = map (map PInt) cs"
    and "\<forall>r \<in> set cs. length r = length dates"
  shows "column_sums L t =
     Inr (map (\<lambda>i. (dates ! i, sum_list (map (\<lambda>r. wrap32 (r ! i)) cs))) [0..<length dates])"
proof -
  let ?n = "length dates"
  have n: "length (columns t) - 4 = ?n"
    using arg_cong [OF assms(1), of length] by simp
  have "mapM (\<lambda>j. bind (mapM (\<lambda>row. astype_int32 L (row ! j)) (rows t))
                     (\<lambda>cells. Inr (columns t ! j, sum_list cells)))
          (map (\<lambda>i. 4 + i) [0..<?n])
      = Inr (map (\<lambda>j. (dates ! (j - 4), sum_list (map (\<lambda>r. wrap32 (r ! (j - 4))) cs)))
               (map (\<lambda>i. 4 + i) [0..<?n]))"
  proof (rule mapM_map)
    fix j
    assume "j \<in> set (map (\<lambda>i. 4 + i) [0..<?n])"
    then have "4 \<le> j \<and> j < 4 + ?n"
      by auto
    then obtain i where j: "j = 4 + i" and i: "i < ?n"
      by (intro that [of "j - 4"]) auto
    have "i < length (drop 4 (columns t))"
      using i assms(1) by simp
    then have "columns t ! (4 + i) = drop 4 (columns t) ! i"
      by simp
    then have c: "columns t ! (4 + i) = dates ! i"
      using assms(1) by simp
    show "bind (mapM (\<lambda>row. astype_int32 L (row ! j)) (rows t))
               (\<lambda>cells. Inr (columns t ! j, sum_list cells))
          = Inr (dates ! (j - 4), sum_list (map (\<lambda>r. wrap32 (r ! (j - 4))) cs))"
      using column_cells [OF assms(2,3) i, of L] c by (simp add: j bind_def)
  qed
  moreover have "[4..<length (columns t)] = map (\<lambda>i. 4 + i) [0..<?n]"
  proof (cases "4 \<le> length (columns t)")
    case True
    then have "length (columns t) = 4 + ?n"
      using n by simp
    then show ?thesis
      using map_add_upt [of 4 ?n] by (simp add: add.commute)
  next
    case False
    then show ?thesis
      using n by simp
  qed
  ultimately show ?thesis
    by (simp add: column_sums_def comp_def)
qed


lemma extract_time_series_global_ints:
  assumes "dd \<noteq> []" and "distinct (map fst dd)" and "distinct dates"
    and tabs: "\<forall>(key, t) \<in> set dd.
        drop 4 (columns t) = dates \<and> map (drop 4) (rows t) = map (map PInt) (cells key)
        \<and> (\<forall>r \<in> set (cells key). length r = length dates)"
  shows "extract_time_series_global L dd =
     Inr (map (\<lambda>i. PDict [(dates ! i,
                 PDict (map (\<lambda>(key, t).
                   (key, PInt (sum_list (map (\<lambda>r. wrap32 (r ! i)) (cells key))))) dd))])
              [0..<length dates])"
proof -
  define S where "S key i = sum_list (map (\<lambda>r. wrap32 (r ! i)) (cells key))" for key i
  define ser where "ser key = map (\<lambda>i. (dates ! i, S key i)) [0..<length dates]" for key
  define gdl where "gdl = map (\<lambda>(key, t). (key, ser key)) dd"
  have keys: "map fst (ser key) = dates" for key
    by (simp add: ser_def comp_def map_nth)
  have sums: "mapM (\<lambda>(key, t). bind (column_sums L t) (\<lambda>s. Inr (key, s))) dd = Inr gdl"
    unfolding gdl_def
  proof (rule mapM_map)
    fix x
    assume x: "x \<in> set dd"
    obtain key t where kt: "x = (key, t)"
      by (cases x)
    have "column_sums L t = Inr (ser key)"
      unfolding ser_def S_def using tabs x kt by (intro column_sums_ints) auto
    then show "(case x of (key, t) \<Rightarrow> bind (column_sums L t) (\<lambda>s. Inr (key, s)))
            = Inr (case x of (key, t) \<Rightarrow> (key, ser key))"
      by (simp add: kt bind_def)
  qed
  have ne: "gdl \<noteq> []"
    using assms(1) by (simp add: gdl_def)
  have labels: "union_index (map (\<lambda>(key, s). map fst s) gdl) = dates"
    using assms(1,3) by (intro union_index_same) (auto simp: gdl_def keys)
  have present: "map_of (ser key) (dates ! i) = Some (S key i)" if "i < length dates" for key i
    unfolding ser_def using assms(3) that by (rule map_of_indexed)
  have np: "map_of s l \<noteq> None" if a: "(key, s) \<in> set gdl" and b: "l \<in> set dates" for key s l
  proof -
    obtain i where "i < length dates" "l = dates ! i"
      using b by (auto simp: in_set_conv_nth)
    moreover have "s = ser key"
      using a by (auto simp: gdl_def)
    ultimately show ?thesis
      using present by simp
  qed
  have nofloat: "\<not> list_ex (\<lambda>(key, s). list_ex (\<lambda>l. map_of s l = None) dates) gdl"
  proof
    assume "list_ex (\<lambda>(key, s). list_ex (\<lambda>l. map_of s l = None) dates) gdl"
    then obtain key s l where "(key, s) \<in> set gdl" "l \<in> set dates" "map_of s l = None"
      by (auto simp: list_ex_iff)
    then show False
      using np by blast
  qed
  have inner: "dict_of_items (map (\<lambda>(key, s). (key, concat_cell False s (dates ! i))) gdl)
          = map (\<lambda>(key, t). (key, PInt (S key i))) dd" if "i < length dates" for i
  proof -
    have "map (\<lambda>(key, s). (key, concat_cell False s (dates ! i))) gdl
            = map (\<lambda>(key, t). (key, PInt (S key i))) dd"
      using present [OF that] by (simp add: gdl_def concat_cell_def case_prod_beta)
    moreover have "distinct (map fst (map (\<lambda>(key, t). (key, PInt (S key i))) dd))"
      using assms(2) by (simp add: comp_def case_prod_beta)
    ultimately show ?thesis
      by (simp add: dict_of_items_id)
  qed
  let ?row = "\<lambda>l. (l, PDict (dict_of_items
                 (map (\<lambda>(key, s). (key, concat_cell False s l)) gdl)))"
  have "distinct (map fst (map ?row dates))"
    using assms(3) by (simp add: comp_def)
  then have outer: "dict_of_items (map ?row dates) = map ?row dates"
    by (rule dict_of_items_id)
  have "map ?row (map (\<lambda>i. dates ! i) [0..<length dates])
          = map (\<lambda>i. ?row (dates ! i)) [0..<length dates]"
    by (simp only: map_map comp_def)
  then have "map ?row dates = map (\<lambda>i. ?row (dates ! i)) [0..<length dates]"
    by (simp only: map_nth)
  also have "\<dots> = map (\<lambda>i. (dates ! i, PDict (map (\<lambda>(key, t). (key, PInt (S key i))) dd)))
                      [0..<length dates]"
    using inner by simp
  finally have rows: "map ?row dates =
      map (\<lambda>i. (dates ! i, PDict (map (\<lambda>(key, t). (key, PInt (S key i))) dd)))
          [0..<length dates]" .
  have "extract_time_series_global L dd =
          Inr (map (\<lambda>(k, v). PDict [(k, v)]) (dict_of_items (map ?row dates)))"
    unfolding extract_time_series_global_def sums
    by (simp add: bind_def ne Let_def labels nofloat)
  then have "extract_time_series_global L dd =
          Inr (map (\<lambda>(k, v). PDict [(k, v)]) (map ?row dates))"
    by (simp only: outer)
  then show ?thesis
    by (simp add: rows comp_def S_def)
qed


text \<open>
  C8, as the code has it: the \<open>data\<close> of \<^verbatim>\<open>get_time_series('global')\<close> holds one
  single-entry object per date column, in column order, of the shape
  \<^verbatim>\<open>{date: {case_kind: total, ...}}\<close>, the case kinds in the order of the tables.  It is
  proved where the tables of all kinds carry the same, distinct date labels after their
  first four columns and hold integers \<open>cells key\<close> there; each total is then the sum, over
  the rows of the table of its kind, of the cell of that date after the cast to 32 bits
  (which leaves a cell within that range as it is, see \<open>wrap32_id\<close>).
\<close>

theorem global_time_series_per_date:
  assumes "df_time_series svc \<noteq> []" and "distinct (map fst (df_time_series svc))"
    and "distinct dates"
    and "\<forall>(key, t) \<in> set (df_time_series svc).
        drop 4 (columns t) = dates \<and> map (drop 4) (rows t) = map (map PInt) (cells key)
        \<and> (\<forall>r \<in> set (cells key). length r = length dates)"
  shows "get_time_series L svc ''global'' h =
     (Inr (scheme svc),
      set_data (scheme svc)
        (PList (map (\<lambda>i. PDict [(dates ! i,
                   PDict (map (\<lambda>(key, t).
                     (key, PInt (sum_list (map (\<lambda>r. wrap32 (r ! i)) (cells key)))))
                     (df_time_series svc)))])
                [0..<length dates])) h)"
  using extract_time_series_global_ints [OF assms, of L]
  by (simp add: get_time_series_def)

theorem global_time_series_per_date_witness:
  "df_time_series sample_service \<noteq> [] \<and> distinct (map fst (df_time_series sample_service))
   \<and> distinct [''1/22/20'', ''1/23/20'']
   \<and> list_all (\<lambda>(key, t).
        drop 4 (columns t) = [''1/22/20'', ''1/23/20'']
        \<and> map (drop 4) (rows t) = map (map PInt) (sample_cells key)
        \<and> list_all (\<lambda>r. length r = length [''1/22/20'', ''1/23/20'']) (sample_cells key))
       (df_time_series sample_service)
   \<and> result_data (get_time_series reference_runtime sample_service ''global'' sample_store) =
       Inr (PList
         [PDict [(''1/22/20'', PDict [(''confirmed'', PInt 446), (''deaths'', PInt 17),
                                       (''recovered'', PInt 28)])],
          PDict [(''1/23/20'', PDict [(''confirmed'', PInt 447), (''deaths'', PInt 17),
                                       (''recovered'', PInt 28)])]])"
proof -
  have 1: "df_time_series sample_service \<noteq> []"
    and 2: "distinct (map fst (df_time_series sample_service))"
    by (simp_all add: sample_service_def sample_time_series_def)
  have 3: "distinct [''1/22/20'', ''1/23/20'']"
    by simp
  have 4: "\<forall>(key, t) \<in> set (df_time_series sample_service).
        drop 4 (columns t) = [''1/22/20'', ''1/23/20'']
        \<and> map (drop 4) (rows t) = map (map PInt) (sample_cells key)
        \<and> (\<forall>r \<in> set (sample_cells key). length r = length [''1/22/20'', ''1/23/20''])"
    by (simp add: sample_service_def sample_time_series_def sample_cells_def)
  have "result_data (get_time_series reference_runtime sample_service ''global'' sample_store) =
       Inr (PList
         [PDict [(''1/22/20'', PDict [(''confirmed'', PInt 446), (''deaths'', PInt 17),
                                       (''recovered'', PInt 28)])],
          PDict [(''1/23/20'', PDict [(''confirmed'', PInt 447), (''deaths'', PInt 17),
                                       (''recovered'', PInt 28)])]])"
    unfolding global_time_series_per_date [OF 1 2 3 4]
    by (simp add: sample_service_def sample_time_series_def sample_cells_def wrap32_def
          upt_rec [of 0] upt_rec [of 1])
  moreover have "list_all (\<lambda>(key, t).
        drop 4 (columns t) = [''1/22/20'', ''1/23/20'']
        \<and> map (drop 4) (rows t) = map (map PInt) (sample_cells key)
        \<and> list_all (\<lambda>r. length r = length [''1/22/20'', ''1/23/20'']) (sample_cells key))
       (df_time_series sample_service)"
    using 4 unfolding list_all_iff by blast
  ultimately show ?thesis
    using 1 2 3 by blast
qed

text \<open>
  C8 as stated fails: on the sample tables the objects are keyed by date and there is one
  per date, not one per case kind holding the dates.
\<close>

theorem global_time_series_shape_counterexample:
  "result_data (get_time_series reference_runtime sample_service ''global'' sample_store) =
     Inr (PList
       [PDict [(''1/22/20'', PDict [(''confirmed'', PInt 446), (''deaths'', PInt 17),
                                     (''recovered'', PInt 28)])],
        PDict [(''1/23/20'', PDict [(''confirmed'', PInt 447), (''deaths'', PInt 17),
                                     (''recovered'', PInt 28)])]])
   \<and> result_data (get_time_series reference_runtime sample_service ''global'' sample_store) \<noteq>
     Inr (PList
       [PDict [(''confirmed'', PDict [(''1/22/20'', PInt 446), (''1/23/20'', PInt 447)])],
        PDict [(''deaths'', PDict [(''1/22/20'', PInt 17), (''1/23/20'', PInt 17)])],
        PDict [(''recovered'', PDict [(''1/22/20'', PInt 28), (''1/23/20'', PInt 28)])]])"
  by code_simp


section \<open>The order of the current data\<close>

lemma tied_max: "py_max (map Last_Update tied_reports) = Inr ''2020-03-14 10:00:00''"
  by code_simp

lemma tied_init:
  "init reference_runtime tied_reports [] [] Map.empty empty_store = (Inr tied_service, sample_store)"
  by (simp add: init_def tied_max sample_strptime sample_utc bind_def reference_runtime_def
        alloc_def empty_store_def tied_service_def sample_store_def)

lemma sorted_rev_adjacent:
  fixes xs :: "int list"
  shows "sorted (rev xs) \<Longrightarrow> Suc i < length xs \<Longrightarrow> xs ! Suc i \<le> xs ! i"
proof -
  assume s: "sorted (rev xs)" and i: "Suc i < length xs"
  let ?n = "length xs"
  have "rev xs ! (?n - Suc (Suc i)) \<le> rev xs ! (?n - Suc i)"
    using s i by (intro sorted_nth_mono) auto
  then show ?thesis
    using i by (simp add: rev_nth Suc_diff_Suc)
qed

lemma mirror_upt: "map (\<lambda>j. n - 1 - j) [0..<n] = rev [0..<n]"
  by (rule nth_equalityI) (auto simp: rev_nth)

lemma nargsort_desc_perm:
  assumes "argsort_ok (argsort L) (rev v)"
  shows "mset (nargsort_desc L v) = mset [0..<length v]"
    and "map (\<lambda>i. v ! i) (nargsort_desc L v) = rev (map (\<lambda>j. rev v ! j) (argsort L (rev v)))"
proof -
  let ?n = "length v"
  let ?p = "argsort L (rev v)"
  have sp: "sort ?p = [0..<?n]"
    using assms by (simp add: argsort_ok_def)
  have p: "mset ?p = mset [0..<?n]"
    by (metis sp mset_sort)
  have "mset (nargsort_desc L v) = mset (map (\<lambda>j. ?n - 1 - j) ?p)"
    by (simp add: nargsort_desc_def Let_def)
  also have "\<dots> = mset (map (\<lambda>j. ?n - 1 - j) [0..<?n])"
    using p by (metis mset_map)
  also have "\<dots> = mset (rev [0..<?n])"
    by (simp only: mirror_upt)
  also have "\<dots> = mset [0..<?n]"
    by (simp only: mset_rev)
  finally show "mset (nargsort_desc L v) = mset [0..<?n]" .
  have "\<forall>j \<in> set ?p. j < ?n"
    using p by (metis atLeastLessThan_iff set_mset_mset set_upt)
  then have "map (\<lambda>j. v ! (?n - 1 - j)) ?p = map (\<lambda>j. rev v ! j) ?p"
    by (auto simp: rev_nth)
  then show "map (\<lambda>i. v ! i) (nargsort_desc L v) = rev (map (\<lambda>j. rev v ! j) ?p)"
    by (simp add: nargsort_desc_def rev_map comp_def)
qed


text \<open>
  C1, as the code has it: where \<^verbatim>\<open>argsort\<close> keeps numpy's promise on the reversed keys,
  the \<open>data\<close> of \<^verbatim>\<open>get_current()\<close> holds the records of the per-country aggregate, each
  once, and \<open>confirmed\<close> never increases from a record to the next.  Nothing is said of
  the order of records with equal \<open>confirmed\<close>: \<^verbatim>\<open>sort_values\<close> is called with its default
  kind, which is not stable.
\<close>

theorem get_current_sorted_descending:
  assumes "argsort_ok (argsort L) (rev (map g_confirmed (df_grp_by_country svc)))"
  shows "\<exists>recs. result_data (get_current L svc h) = Inr (PList (map country_record recs))
     \<and> mset recs = mset (df_grp_by_country svc)
     \<and> (\<forall>i. Suc i < length recs \<longrightarrow> g_confirmed (recs ! Suc i) \<le> g_confirmed (recs ! i))"
proof -
  let ?g = "df_grp_by_country svc"
  let ?v = "map g_confirmed ?g"
  let ?idx = "nargsort_desc L ?v"
  let ?recs = "sort_values_desc L ?g"
  have idx: "mset ?idx = mset [0..<length ?g]"
    using nargsort_desc_perm(1) [OF assms] by simp
  then have bound: "\<forall>i \<in> set ?idx. i < length ?g"
    by (metis atLeastLessThan_iff set_mset_mset set_upt)
  have "mset ?recs = mset (map (\<lambda>i. ?g ! i) [0..<length ?g])"
    unfolding sort_values_desc_def using idx by (metis mset_map)
  then have perm: "mset ?recs = mset ?g"
    by (simp add: map_nth)
  have "map g_confirmed ?recs = map (\<lambda>i. ?v ! i) ?idx"
    using bound by (simp add: sort_values_desc_def)
  then have "rev (map g_confirmed ?recs) = map (\<lambda>j. rev ?v ! j) (argsort L (rev ?v))"
    using nargsort_desc_perm(2) [OF assms] by simp
  then have "sorted (rev (map g_confirmed ?recs))"
    using assms by (simp add: argsort_ok_def)
  then have "\<forall>i. Suc i < length ?recs \<longrightarrow> g_confirmed (?recs ! Suc i) \<le> g_confirmed (?recs ! i)"
    using sorted_rev_adjacent [of "map g_confirmed ?recs"] by auto
  moreover have "result_data (get_current L svc h) = Inr (PList (map country_record ?recs))"
    by (simp add: get_current_def)
  ultimately show ?thesis
    using perm by blast
qed

lemma sample_argsort_ok:
  "argsort_ok (argsort reference_runtime) (rev (map g_confirmed (df_grp_by_country sample_service)))"
  by code_simp

lemma sample_current:
  "result_data (get_current reference_runtime sample_service sample_store) =
     Inr (PList [PDict [(''location'', PStr ''US''), (''confirmed'', PInt 9), (''deaths'', PInt 0),
                        (''recovered'', PInt 0), (''active'', PInt 9)],
                 PDict [(''location'', PStr ''Thailand''), (''confirmed'', PInt 8),
                        (''deaths'', PInt 1), (''recovered'', PInt 3), (''active'', PInt 4)]])"
  by code_simp

theorem get_current_sorted_descending_witness:
  "argsort_ok (argsort reference_runtime)
     (rev (map g_confirmed (df_grp_by_country sample_service)))
   \<and> (\<exists>recs. result_data (get_current reference_runtime sample_service sample_store)
                = Inr (PList (map country_record recs))
         \<and> mset recs = mset (df_grp_by_country sample_service))"
  using get_current_sorted_descending [OF sample_argsort_ok, of sample_store] sample_argsort_ok
  by blast

text \<open>
  C1 as stated fails: the eighteen countries \<^verbatim>\<open>A\<close> to \<^verbatim>\<open>R\<close> are grouped in alphabetical
  order and all have 7 confirmed cases, but numpy's quicksort partitions a range of
  eighteen keys and swaps equal keys across the pivot, so that \<^verbatim>\<open>get_current()\<close> lists
  them as \<^verbatim>\<open>A B Q P O N M L K J I H G F E D C R\<close>.
\<close>

theorem get_current_ties_counterexample:
  "fst (init reference_runtime tied_reports [] [] Map.empty empty_store) = Inr tied_service
   \<and> map g_location (df_grp_by_country tied_service) =
       map (\<lambda>c. [c]) ''ABCDEFGHIJKLMNOPQR''
   \<and> map g_confirmed (df_grp_by_country tied_service) = replicate 18 7
   \<and> result_data (get_current reference_runtime tied_service sample_store) =
       Inr (PList (map (\<lambda>c. PDict [(''location'', PStr [c]), (''confirmed'', PInt 7),
                                     (''deaths'', PInt 0), (''recovered'', PInt 0),
                                     (''active'', PInt 7)])
                       ''ABQPONMLKJIHGFEDCR''))"
proof -
  have "map g_location (df_grp_by_country tied_service) =
       map (\<lambda>c. [c]) ''ABCDEFGHIJKLMNOPQR''
   \<and> map g_confirmed (df_grp_by_country tied_service) = replicate 18 7
   \<and> result_data (get_current reference_runtime tied_service sample_store) =
       Inr (PList (map (\<lambda>c. PDict [(''location'', PStr [c]), (''confirmed'', PInt 7),
                                     (''deaths'', PInt 0), (''recovered'', PInt 0),
                                     (''active'', PInt 7)])
                       ''ABQPONMLKJIHGFEDCR''))"
    by code_simp
  then show ?thesis
    by (simp only: tied_init fst_conv simp_thms)
qed


section \<open>Resolving a country\<close>

text \<open>
  What \<^verbatim>\<open>get_country\<close> computes.  The membership test compares the name as it was
  given with the lowercased locations; only the selection lowercases the name.
\<close>

lemma location_lower_record:
  "location_lower L (country_record g) = Inr (str_lower L (g_location g))"
  by (simp add: location_lower_def country_record_def dict_get_def bind_def)

lemma mapM_location_lower:
  "mapM (location_lower L) (map country_record gs)
     = Inr (map (\<lambda>g. str_lower L (g_location g)) gs)"
  by (induction gs) (simp_all add: location_lower_record bind_def)

lemma filter_zip_records:
  "map fst (filter (\<lambda>(cd, loc). n = loc) (zip (map country_record gs) (map f gs)))
     = map country_record (filter (\<lambda>g. n = f g) gs)"
  by (induction gs) auto

lemma get_country_data:
  "result_data (get_country L svc country_name h) =
     (let recs = sort_values_desc L (df_grp_by_country svc);
          locs = map (\<lambda>g. str_lower L (g_location g)) recs
      in bind (if country_name \<notin> set locs
               then (case lookup_table svc (str_upper L country_name) of
                       None \<Rightarrow> Inl (KeyError (str_upper L country_name))
                     | Some c \<Rightarrow> Inr c)
               else Inr country_name)
           (\<lambda>name. case filter (\<lambda>g. str_lower L name = str_lower L (g_location g)) recs of
                      [] \<Rightarrow> Inl IndexError
                    | g # _ \<Rightarrow> Inr (country_record g)))"
proof -
  let ?recs = "sort_values_desc L (df_grp_by_country svc)"
  have cur: "get_current L svc h
      = (Inr (scheme svc), set_data (scheme svc) (PList (map country_record ?recs)) h)"
    by (simp add: get_current_def)
  have sel: "(case map fst (filter (\<lambda>(cd, loc). str_lower L name = loc)
                (zip (map country_record ?recs)
                     (map (\<lambda>g. str_lower L (g_location g)) ?recs))) of
               [] \<Rightarrow> Inl IndexError | m # _ \<Rightarrow> Inr m)
           = (case filter (\<lambda>g. str_lower L name = str_lower L (g_location g)) ?recs of
               [] \<Rightarrow> Inl IndexError | g # _ \<Rightarrow> Inr (country_record g))" for name
    by (simp only: filter_zip_records) (simp split: list.splits)
  show ?thesis
    unfolding get_country_def cur
    by (simp add: set_data_def py_iter_def bind_def mapM_location_lower sel result_data_def
          returned_def split: sum.splits option.splits)
qed

lemma get_country_lookup_miss:
  assumes "country_name \<notin> set (map (\<lambda>g. str_lower L (g_location g))
                                     (sort_values_desc L (df_grp_by_country svc)))"
    and "lookup_table svc (str_upper L country_name) = None"
  shows "result_data (get_country L svc country_name h)
           = Inl (KeyError (str_upper L country_name))"
  using assms by (simp add: get_country_data bind_def)

lemma get_country_code_and_lowercase_name:
  assumes "lookup_table svc (str_upper L code) = Some c"
    and "str_lower L (str_lower L c) = str_lower L c"
    and "code \<notin> set (map (\<lambda>g. str_lower L (g_location g))
                            (sort_values_desc L (df_grp_by_country svc)))"
    and "str_lower L c \<in> set (map (\<lambda>g. str_lower L (g_location g))
                            (sort_values_desc L (df_grp_by_country svc)))"
  shows "result_data (get_country L svc code h)
           = result_data (get_country L svc (str_lower L c) h')"
  using assms by (simp add: get_country_data bind_def)

text \<open>
  C3 at the name \<^verbatim>\<open>Thailand\<close>: the aggregate of the sample service has the location
  \<^verbatim>\<open>Thailand\<close>, which the name matches without regard to case, and the lookup table has
  no key \<^verbatim>\<open>THAILAND\<close>; yet \<^verbatim>\<open>get_country('Thailand')\<close> goes to the lookup table and
  raises \<^verbatim>\<open>KeyError\<close>, where the claim has it return the record that
  \<^verbatim>\<open>get_country('thailand')\<close> returns.
\<close>

theorem get_country_mixed_case_name:
  "str_lower reference_runtime ''Thailand''
     \<in> set (map (\<lambda>g. str_lower reference_runtime (g_location g))
                (df_grp_by_country sample_service))
   \<and> str_upper reference_runtime ''Thailand'' = ''THAILAND''
   \<and> lookup_table sample_service ''THAILAND'' = None
   \<and> fst (get_country reference_runtime sample_service ''Thailand'' sample_store)
       = Inl (KeyError ''THAILAND'')
   \<and> result_data (get_country reference_runtime sample_service ''thailand'' sample_store)
       = Inr (PDict [(''location'', PStr ''Thailand''), (''confirmed'', PInt 8),
                     (''deaths'', PInt 1), (''recovered'', PInt 3), (''active'', PInt 4)])"
  by code_simp

text \<open>
  C4 at the name \<^verbatim>\<open>Thailand\<close> and the code \<^verbatim>\<open>TH\<close>: the name is a location of the
  aggregate and the lookup table maps the code to it; \<^verbatim>\<open>get_country('TH')\<close> returns the
  record of Thailand, \<^verbatim>\<open>get_country('Thailand')\<close> raises \<^verbatim>\<open>KeyError\<close>.
\<close>

theorem get_country_name_and_code_differ:
  "''Thailand'' \<in> set (map g_location (df_grp_by_country sample_service))
   \<and> lookup_table sample_service ''TH'' = Some ''Thailand''
   \<and> result_data (get_country reference_runtime sample_service ''TH'' sample_store)
       = Inr (PDict [(''location'', PStr ''Thailand''), (''confirmed'', PInt 8),
                     (''deaths'', PInt 1), (''recovered'', PInt 3), (''active'', PInt 4)])
   \<and> result_data (get_country reference_runtime sample_service ''Thailand'' sample_store)
       = Inl (KeyError ''THAILAND'')"
  by code_simp

end
